theory Spec2Isabelle
  imports Complex_Main "HOL-Library.Multiset"
begin

section \<open>Conventions of the embedding\<close>

text \<open>
  The scrapers and the report generator of Scrapler are embedded function by function.

  \<^item> A Python \<open>str\<close> is a \<open>string\<close>, one \<open>char\<close> per code point. The model covers the
    texts whose code points lie in 0..255 (Latin-1): every keyword of the source lies
    there, except the star U+2605 of one rating pattern. In this range the class
    \<open>\d\<close> of Python's \<open>re\<close> is exactly the ten ASCII digits.
  \<^item> A Python \<open>float\<close> is a \<open>rat\<close>, the number it denotes. A parsed decimal and the
    duration of a scrape are taken exactly. The arithmetic of the diff engine is the
    arithmetic of doubles, with its rounding. Overflow, subnormal numbers and the length
    limit of Python's integer conversion are not modelled.
  \<^item> An exception is a value of the result type.
\<close>

section \<open>Strings\<close>

definition is_digit :: "char \<Rightarrow> bool" where
  "is_digit c = (c \<in> set ''0123456789'')"

definition digit_val :: "char \<Rightarrow> nat" where
  "digit_val c = of_char c - 48"

definition nat_of_digits :: "string \<Rightarrow> nat" where
  "nat_of_digits s = foldl (\<lambda>a c. 10 * a + digit_val c) 0 s"

text \<open>\<open>s.replace(a, b)\<close> and \<open>s.replace(a, '')\<close> for one-character \<open>a\<close>, \<open>b\<close>.\<close>

definition replace_char :: "char \<Rightarrow> char \<Rightarrow> string \<Rightarrow> string" where
  "replace_char a b s = map (\<lambda>x. if x = a then b else x) s"

definition remove_char :: "char \<Rightarrow> string \<Rightarrow> string" where
  "remove_char a s = filter (\<lambda>x. x \<noteq> a) s"

text \<open>\<open>s.split(sep)\<close> for a one-character separator: never the empty list.\<close>

fun split_on :: "char \<Rightarrow> string \<Rightarrow> string list" where
  "split_on sep [] = [[]]"
| "split_on sep (c # cs) =
     (if c = sep then [] # split_on sep cs
      else (case split_on sep cs of [] \<Rightarrow> [[c]] | p # ps \<Rightarrow> (c # p) # ps))"

text \<open>\<open>s.rfind(c)\<close>: the highest index of \<open>c\<close>, or \<open>-1\<close>.\<close>

fun rfind_from :: "char \<Rightarrow> string \<Rightarrow> int \<Rightarrow> int \<Rightarrow> int" where
  "rfind_from c [] i found = found"
| "rfind_from c (x # xs) i found = rfind_from c xs (i + 1) (if x = c then i else found)"

definition rfind :: "char \<Rightarrow> string \<Rightarrow> int" where
  "rfind c s = rfind_from c s 0 (- 1)"

text \<open>
  \<open>float(s)\<close> on a string over the digits and the period, the only strings that
  \<open>_clean_price\<close> and \<open>_extract_rating\<close> pass to it (lemmas \<open>price_separators_decimal\<close>
  and \<open>rating_group_decimal\<close>): digits with at most one period and at least one digit;
  \<open>None\<close> is the \<open>ValueError\<close>. On these strings no sign, exponent, underscore or
  blank can occur.
\<close>

definition float_of_decimal :: "string \<Rightarrow> rat option" where
  "float_of_decimal s =
     (if \<not> list_all (\<lambda>c. is_digit c \<or> c = CHR ''.'') s then None
      else (case split_on (CHR ''.'') s of
              [a] \<Rightarrow> if a = [] then None else Some (of_nat (nat_of_digits a))
            | [a, b] \<Rightarrow> if a = [] \<and> b = [] then None
                        else Some (of_nat (nat_of_digits a) + of_nat (nat_of_digits b) / 10 ^ length b)
            | _ \<Rightarrow> None))"

section \<open>Price normalisation: \<open>BaseScraper._clean_price\<close>\<close>

text \<open>\<open>re.sub(r'[^\d.,]', '', price_text)\<close>\<close>

definition re_sub_price :: "string \<Rightarrow> string" where
  "re_sub_price s = filter (\<lambda>c. is_digit c \<or> c = CHR ''.'' \<or> c = CHR '','') s"

text \<open>The two branches on the separators (European and American formats).\<close>

definition price_separators :: "string \<Rightarrow> string" where
  "price_separators price_clean =
     (if CHR '','' \<in> set price_clean \<and> CHR ''.'' \<in> set price_clean then
        (if rfind (CHR '','') price_clean > rfind (CHR ''.'') price_clean
         then replace_char (CHR '','') (CHR ''.'') (remove_char (CHR ''.'') price_clean)
         else remove_char (CHR '','') price_clean)
      else if CHR '','' \<in> set price_clean then
        (if length (last (split_on (CHR '','') price_clean)) \<le> 2
         then replace_char (CHR '','') (CHR ''.'') price_clean
         else remove_char (CHR '','') price_clean)
      else price_clean)"

definition clean_price :: "string \<Rightarrow> rat" where
  "clean_price price_text =
     (if price_text = [] then 0
      else (case float_of_decimal (price_separators (re_sub_price price_text)) of
              Some v \<Rightarrow> v
            | None \<Rightarrow> 0))"

subsection \<open>The normaliser as the specification words it\<close>

text \<open>
  Strip all characters except digits, comma and period. With both separators present,
  the one appearing later in the string is the decimal separator; with only a comma, it
  is the decimal separator when at most two digits follow it; a lone period is the
  decimal separator. Every other separator is a thousands separator and is removed.
  The result is parsed as a decimal, a failure is the sentinel 0.
\<close>

definition is_separator :: "char \<Rightarrow> bool" where
  "is_separator c = (c = CHR '','' \<or> c = CHR ''.'')"

definition decimal_separator_spec :: "string \<Rightarrow> char option" where
  "decimal_separator_spec p =
     (if CHR '','' \<in> set p \<and> CHR ''.'' \<in> set p then Some (last (filter is_separator p))
      else if CHR '','' \<in> set p then
        (if length (takeWhile is_digit (rev p)) \<le> 2 then Some (CHR '','') else None)
      else if CHR ''.'' \<in> set p then Some (CHR ''.'')
      else None)"

definition normalizePrice_spec :: "string \<Rightarrow> rat" where
  "normalizePrice_spec raw =
     (let p = filter (\<lambda>c. is_digit c \<or> is_separator c) raw;
          d = decimal_separator_spec p;
          r = concat (map (\<lambda>c. if is_digit c then [c] else if Some c = d then ''.'' else []) p)
      in case float_of_decimal r of Some v \<Rightarrow> v | None \<Rightarrow> 0)"


section \<open>Texts and the parsed page\<close>

text \<open>
  \<open>str.lower()\<close> on Latin-1: the letters A..Z and the accented capitals U+00C0..U+00DE
  (without the multiplication sign U+00D7) move up by 32, every other character stays.
\<close>

definition lower_char :: "char \<Rightarrow> char" where
  "lower_char c =
     (let n = (of_char c :: nat)
      in if (65 \<le> n \<and> n \<le> 90) \<or> (192 \<le> n \<and> n \<le> 222 \<and> n \<noteq> 215)
         then char_of (n + 32) else c)"

definition lower :: "string \<Rightarrow> string" where
  "lower s = map lower_char s"

text \<open>\<open>sub in s\<close> on strings: \<open>sub\<close> occurs as a contiguous part of \<open>s\<close>.\<close>

fun starts_with :: "string \<Rightarrow> string \<Rightarrow> bool" where
  "starts_with [] s = True"
| "starts_with (p # ps) [] = False"
| "starts_with (p # ps) (c # cs) = (p = c \<and> starts_with ps cs)"

fun py_in :: "string \<Rightarrow> string \<Rightarrow> bool" where
  "py_in sub [] = (sub = [])"
| "py_in sub (c # cs) = (starts_with sub (c # cs) \<or> py_in sub cs)"

text \<open>\<open>any(k in text for k in keywords)\<close>\<close>

definition any_in :: "string list \<Rightarrow> string \<Rightarrow> bool" where
  "any_in keywords s = list_ex (\<lambda>k. py_in k s) keywords"

text \<open>
  \<open>c.isdigit()\<close> on Latin-1: the ASCII digits and the superscripts U+00B2, U+00B3, U+00B9.
\<close>

definition py_isdigit :: "char \<Rightarrow> bool" where
  "py_isdigit c = (is_digit c \<or> c = CHR 0xB2 \<or> c = CHR 0xB3 \<or> c = CHR 0xB9)"

text \<open>
  Of an element of the parsed page the scrapers read the stripped text
  (\<open>get_text(strip=True)\<close>), the attribute \<open>disabled\<close> (\<open>None\<close> when absent) and the list
  of classes. Of the page (the \<open>BeautifulSoup\<close> object) they read the elements that a CSS
  selector matches, in document order (\<open>select\<close>; \<open>select_one\<close> is the first of them),
  and, for Shopify, the buttons and inputs that \<open>find_all\<close> returns for the add-to-cart
  classes.
\<close>

record element =
  text_of :: string
  disabled_attr :: "string option"
  classes :: "string list"

record soup =
  select :: "string \<Rightarrow> element list"
  add_to_cart_buttons :: "element list"

definition select_one :: "soup \<Rightarrow> string \<Rightarrow> element option" where
  "select_one page selector = (case select page selector of [] \<Rightarrow> None | e # _ \<Rightarrow> Some e)"

text \<open>\<open>BaseScraper._extract_text\<close>: the first selector whose first element has a text.\<close>

fun extract_text :: "soup \<Rightarrow> string list \<Rightarrow> string" where
  "extract_text page [] = []"
| "extract_text page (selector # selectors) =
     (case select_one page selector of
        Some e \<Rightarrow> if text_of e \<noteq> [] then text_of e else extract_text page selectors
      | None \<Rightarrow> extract_text page selectors)"

text \<open>\<open>button.get('disabled') or 'disabled' in button.get('class', [])\<close>\<close>

definition is_disabled :: "element \<Rightarrow> bool" where
  "is_disabled e =
     ((case disabled_attr e of Some v \<Rightarrow> v \<noteq> [] | None \<Rightarrow> False) \<or> ''disabled'' \<in> set (classes e))"

section \<open>Availability\<close>

text \<open>The availability strings of the scrapers, with their accents.\<close>

definition EN_STOCK :: string where
  "EN_STOCK = ''En stock''"

definition RUPTURE_DE_STOCK :: string where
  "RUPTURE_DE_STOCK = ''Rupture de stock''"

definition TEMPORAIREMENT_INDISPONIBLE :: string where
  "TEMPORAIREMENT_INDISPONIBLE = ''Temporairement indisponible''"

definition DISPONIBILITE_INCONNUE :: string where
  "DISPONIBILITE_INCONNUE = ''Disponibilit'' @ [CHR 0xE9] @ '' inconnue''"

definition ANNONCE_EXPIREE :: string where
  "ANNONCE_EXPIREE = ''Annonce expir'' @ [CHR 0xE9] @ ''e''"

text \<open>
  The five values of the specification's enum, as the scrapers spell them: in stock, out
  of stock, temporarily unavailable, expired, unknown.
\<close>

definition availability_enum :: "string list" where
  "availability_enum =
     [EN_STOCK, RUPTURE_DE_STOCK, TEMPORAIREMENT_INDISPONIBLE, ANNONCE_EXPIREE, DISPONIBILITE_INCONNUE]"

subsection \<open>\<open>AmazonScraper._extract_amazon_availability\<close>\<close>

definition classify_amazon :: "string \<Rightarrow> string" where
  "classify_amazon availability_text =
     (if availability_text = [] then DISPONIBILITE_INCONNUE
      else let availability_lower = lower availability_text
           in if any_in [''en stock'', ''in stock'', ''disponible''] availability_lower
              then EN_STOCK
              else if any_in [''temporairement'', ''currently unavailable'', ''indisponible'']
                        availability_lower
              then TEMPORAIREMENT_INDISPONIBLE
              else if any_in [''rupture'', ''out of stock''] availability_lower
              then RUPTURE_DE_STOCK
              else availability_text)"

definition extract_amazon_availability :: "soup \<Rightarrow> string" where
  "extract_amazon_availability page =
     classify_amazon
       (extract_text page [''#availability span'', ''.a-alert-content'', ''.availability-msg''])"

subsection \<open>\<open>EtsyScraper._extract_etsy_availability\<close>\<close>

definition etsy_sold_out_words :: "string list" where
  "etsy_sold_out_words = [[CHR 0xE9] @ ''puis'' @ [CHR 0xE9], ''sold out'', ''unavailable'']"

definition etsy_add_button :: "soup \<Rightarrow> string" where
  "etsy_add_button page =
     (case select_one page ''[data-test-id=\"add-to-cart-button\"]'' of
        Some add_button \<Rightarrow> if is_disabled add_button then RUPTURE_DE_STOCK else EN_STOCK
      | None \<Rightarrow> DISPONIBILITE_INCONNUE)"

definition extract_etsy_availability :: "soup \<Rightarrow> string" where
  "extract_etsy_availability page =
     (let stock_text = extract_text page
            [''[data-test-id=\"listing-page-inventory\"]'', ''.listing-page-availability'',
             ''.stock-level''];
          stock_lower = lower stock_text
      in if stock_text \<noteq> [] \<and>
            (py_in ''en stock'' stock_lower \<or> any_in [''disponible'', ''available''] stock_lower)
         then EN_STOCK
         else if stock_text \<noteq> [] \<and> any_in etsy_sold_out_words stock_lower
         then RUPTURE_DE_STOCK
         else if stock_text \<noteq> [] \<and> list_ex py_isdigit stock_text
         then ''En stock ('' @ stock_text @ '')''
         else etsy_add_button page)"

subsection \<open>\<open>ShopifyScraper._determine_availability\<close>\<close>

definition in_stock_keywords :: "string list" where
  "in_stock_keywords = [''en stock'', ''disponible'', ''in stock'', ''available'']"

definition out_of_stock_keywords :: "string list" where
  "out_of_stock_keywords =
     [''rupture'', [CHR 0xE9] @ ''puis'' @ [CHR 0xE9], ''indisponible'', ''out of stock'', ''sold out'']"

text \<open>The loop over the add-to-cart buttons: it returns at the first button that is
  disabled or whose text has an out-of-stock keyword.\<close>

fun buttons_availability :: "element list \<Rightarrow> string" where
  "buttons_availability [] = DISPONIBILITE_INCONNUE"
| "buttons_availability (button # buttons) =
     (if is_disabled button then RUPTURE_DE_STOCK
      else if any_in out_of_stock_keywords (lower (text_of button)) then RUPTURE_DE_STOCK
      else buttons_availability buttons)"

definition determine_availability :: "string \<Rightarrow> soup \<Rightarrow> string" where
  "determine_availability availability_text page =
     (let availability_text = lower availability_text
      in if any_in out_of_stock_keywords availability_text then RUPTURE_DE_STOCK
         else if any_in in_stock_keywords availability_text then EN_STOCK
         else buttons_availability (add_to_cart_buttons page))"

text \<open>A page on which one selector matches one element, with the given text.\<close>

definition page_with_text :: "string \<Rightarrow> string \<Rightarrow> soup" where
  "page_with_text selector t =
     \<lparr>select = (\<lambda>s. if s = selector
                      then [\<lparr>text_of = t, disabled_attr = None, classes = []\<rparr>] else []),
      add_to_cart_buttons = []\<rparr>"

text \<open>The keywords that \<open>_extract_amazon_availability\<close> looks for, in the order of its tests.\<close>

definition amazon_keywords :: "string list" where
  "amazon_keywords =
     [''en stock'', ''in stock'', ''disponible'', ''temporairement'', ''currently unavailable'',
      ''indisponible'', ''rupture'', ''out of stock'']"

section \<open>The fetcher: \<open>BaseScraper._make_request\<close>\<close>

text \<open>
  One call of \<open>session.get\<close> either returns a response or raises a
  \<open>RequestException\<close>. The network is an oracle: \<open>net k\<close> is what the call number \<open>k\<close>
  (from 0) of one \<open>_make_request\<close> gets. The effects of the function are kept as a trace.
\<close>

record response =
  status_code :: nat
  content :: string

datatype attempt = Response response | RequestException

datatype effect = Get | Retry_delay | Blocked_delay

definition MAX_RETRIES :: int where
  "MAX_RETRIES = 3"

text \<open>
  \<open>for attempt in range(max_retries)\<close>, from attempt \<open>i\<close> with \<open>remaining\<close> iterations
  left. A retry (\<open>attempt > 0\<close>) first sleeps; status 200 returns the response; 403 and
  429 sleep longer; every other status and a \<open>RequestException\<close> go on with the loop.
\<close>

fun request_loop :: "(nat \<Rightarrow> attempt) \<Rightarrow> nat \<Rightarrow> nat \<Rightarrow> effect list \<Rightarrow> response option \<times> effect list" where
  "request_loop net i 0 trace = (None, trace)"
| "request_loop net i (Suc remaining) trace =
     (let trace = (if i > 0 then trace @ [Retry_delay] else trace);
          trace = trace @ [Get]
      in case net i of
           Response r \<Rightarrow>
             if status_code r = 200 then (Some r, trace)
             else if status_code r \<in> {403, 429}
               then request_loop net (i + 1) remaining (trace @ [Blocked_delay])
             else request_loop net (i + 1) remaining trace
         | RequestException \<Rightarrow> request_loop net (i + 1) remaining trace)"

text \<open>
  \<open>max_retries = max_retries or self.config.MAX_RETRIES\<close>: an omitted argument
  (\<open>None\<close>) and the argument 0 are both falsy and give the configured 3;
  \<open>range\<close> of a negative number is empty.
\<close>

definition effective_retries :: "int option \<Rightarrow> nat" where
  "effective_retries max_retries =
     nat (case max_retries of None \<Rightarrow> MAX_RETRIES
          | Some n \<Rightarrow> if n = 0 then MAX_RETRIES else n)"

definition make_request :: "(nat \<Rightarrow> attempt) \<Rightarrow> int option \<Rightarrow> response option \<times> effect list" where
  "make_request net max_retries = request_loop net 0 (effective_retries max_retries) []"

definition attempts_made :: "response option \<times> effect list \<Rightarrow> nat" where
  "attempts_made res = length (filter (\<lambda>e. e = Get) (snd res))"

definition is_ok :: "attempt \<Rightarrow> bool" where
  "is_ok a = (case a of Response r \<Rightarrow> status_code r = 200 | RequestException \<Rightarrow> False)"

text \<open>A network that answers 429 twice and then 200 with the given content.\<close>

definition net_429_429_200 :: "string \<Rightarrow> nat \<Rightarrow> attempt" where
  "net_429_429_200 page k =
     (if k < 2 then Response \<lparr>status_code = 429, content = ''Too Many Requests''\<rparr>
      else Response \<lparr>status_code = 200, content = page\<rparr>)"

section \<open>The record assembler: \<open>BaseScraper.get_product_data\<close>\<close>

text \<open>
  A Python dictionary with string keys is a map from keys to values. A call of the
  site-specific \<open>scrape_product\<close> raises an \<open>Exception\<close> with a message, returns a
  dictionary, or returns \<open>None\<close> (as the body \<open>pass\<close> of the abstract method would).
\<close>

datatype pyval = PStr string | PFloat rat | PInt int | PBool bool | PNone

type_synonym dict = "string \<rightharpoonup> pyval"

datatype scrape_result = Raises string | Returns dict | Returns_None

text \<open>\<open>d.get(key, default)\<close>\<close>

definition dict_get :: "dict \<Rightarrow> string \<Rightarrow> pyval \<Rightarrow> pyval" where
  "dict_get d key dflt = (case d key of Some v \<Rightarrow> v | None \<Rightarrow> dflt)"

text \<open>\<open>round(x, 2)\<close> on exact values: to the nearest hundredth, a tie to the even one.\<close>

definition round_half_even :: "rat \<Rightarrow> int" where
  "round_half_even x =
     (let f = \<lfloor>x\<rfloor>; d = x - of_int f
      in if d < 1 / 2 then f else if d > 1 / 2 then f + 1 else if even f then f else f + 1)"

definition round2 :: "rat \<Rightarrow> rat" where
  "round2 x = of_int (round_half_even (x * 100)) / 100"

text \<open>The dictionary that \<open>get_product_data\<close> starts from.\<close>

definition base_product_data :: "string \<Rightarrow> string \<Rightarrow> dict" where
  "base_product_data url scraped_at =
     [''url'' \<mapsto> PStr url,
      ''title'' \<mapsto> PStr [],
      ''price'' \<mapsto> PFloat 0,
      ''availability'' \<mapsto> PStr [],
      ''rating'' \<mapsto> PNone,
      ''review_count'' \<mapsto> PNone,
      ''description'' \<mapsto> PStr [],
      ''scraped_at'' \<mapsto> PStr scraped_at,
      ''scraping_duration'' \<mapsto> PFloat 0,
      ''success'' \<mapsto> PBool False,
      ''error_message'' \<mapsto> PStr []]"

text \<open>\<open>if product_info: product_data.update({...})\<close>; \<open>None\<close> and the empty dictionary are falsy.\<close>

definition with_product_info :: "dict option \<Rightarrow> dict \<Rightarrow> dict" where
  "with_product_info product_info product_data =
     (case product_info of
        None \<Rightarrow> product_data
      | Some info \<Rightarrow>
          if info = Map.empty then product_data
          else product_data ++
                 [''product_name'' \<mapsto> dict_get info ''name'' (PStr []),
                  ''category'' \<mapsto> dict_get info ''category'' (PStr []),
                  ''site'' \<mapsto> dict_get info ''site'' (PStr [])])"

text \<open>
  The clock is an input: \<open>scraped_at\<close> is the formatted time, \<open>start_time\<close> and
  \<open>end_time\<close> the two readings of \<open>time.time()\<close>. \<open>scraped\<close> is what the call
  \<open>self.scrape_product(url, product_info)\<close> does; \<open>update(None)\<close> raises a
  \<open>TypeError\<close> inside the \<open>try\<close>.
\<close>

definition get_product_data ::
  "string \<Rightarrow> dict option \<Rightarrow> string \<Rightarrow> rat \<Rightarrow> rat \<Rightarrow> scrape_result \<Rightarrow> dict" where
  "get_product_data url product_info scraped_at start_time end_time scraped =
     (let product_data = with_product_info product_info (base_product_data url scraped_at);
          product_data =
            (case scraped of
               Returns scraped_data \<Rightarrow> (product_data ++ scraped_data)(''success'' \<mapsto> PBool True)
             | Returns_None \<Rightarrow>
                 product_data(''error_message'' \<mapsto> PStr ([CHR 0x27] @ ''NoneType'' @ [CHR 0x27] @ '' object is not iterable''))
             | Raises e \<Rightarrow> product_data(''error_message'' \<mapsto> PStr e))
      in product_data(''scraping_duration'' \<mapsto> PFloat (round2 (end_time - start_time))))"

subsection \<open>The batch loop of \<open>CompetitiveScraper.scrape_products\<close>\<close>

text \<open>
  For one entry of the URL list, \<open>ScraperFactory.get_scraper\<close> raises (the entry has no
  site), finds no scraper (the loop goes on to the next entry), or gives the scraper
  whose \<open>get_product_data\<close> is called and whose record is appended. The \<open>except\<close> of the
  loop appends a short failure record, stamped with \<open>datetime.now().isoformat()\<close>. After
  a success the loop prints \<open>product_data['title'][:40]\<close>, which raises a \<open>TypeError\<close>
  into that \<open>except\<close> when the scraper returned a title that is not a string.
\<close>

datatype scraper_lookup = Lookup_raises string | No_scraper | Scraper scrape_result

record job =
  job_url :: string
  job_info :: "dict option"
  job_lookup :: scraper_lookup
  job_scraped_at :: string
  job_start :: rat
  job_end :: rat
  job_failed_at :: string

definition failure_record :: "job \<Rightarrow> string \<Rightarrow> dict" where
  "failure_record j e =
     [''url'' \<mapsto> PStr (job_url j), ''success'' \<mapsto> PBool False,
      ''error_message'' \<mapsto> PStr e, ''scraped_at'' \<mapsto> PStr (job_failed_at j)]"

definition type_name :: "pyval \<Rightarrow> string" where
  "type_name v =
     (case v of PStr _ \<Rightarrow> ''str'' | PFloat _ \<Rightarrow> ''float'' | PInt _ \<Rightarrow> ''int''
      | PBool _ \<Rightarrow> ''bool'' | PNone \<Rightarrow> ''NoneType'')"

definition not_subscriptable :: "pyval \<Rightarrow> string" where
  "not_subscriptable v = [CHR 0x27] @ type_name v @ [CHR 0x27] @ '' object is not subscriptable''"

text \<open>The records that one pass of the loop appends.\<close>

definition job_records :: "job \<Rightarrow> dict list" where
  "job_records j =
     (case job_lookup j of
        Lookup_raises e \<Rightarrow> [failure_record j e]
      | No_scraper \<Rightarrow> []
      | Scraper scraped \<Rightarrow>
          (let product_data =
                 get_product_data (job_url j) (job_info j) (job_scraped_at j) (job_start j)
                   (job_end j) scraped
           in if product_data ''success'' = Some (PBool True) then
                (case product_data ''title'' of
                   Some (PStr title) \<Rightarrow> [product_data]
                 | Some v \<Rightarrow> [product_data, failure_record j (not_subscriptable v)]
                 | None \<Rightarrow> [product_data, failure_record j ([CHR 0x27] @ ''title'' @ [CHR 0x27])])
              else [product_data]))"

fun scrape_products :: "job list \<Rightarrow> dict list \<Rightarrow> dict list" where
  "scrape_products [] scraped_data = scraped_data"
| "scrape_products (j # js) scraped_data = scrape_products js (scraped_data @ job_records j)"

section \<open>\<open>FiverrScraper.scrape_product\<close>\<close>

text \<open>
  The parser of the page (\<open>_parse_html\<close>, a call of \<open>BeautifulSoup\<close> that gives \<open>None\<close>
  when it fails) and the helper \<open>_extract_fiverr_reviews\<close> are parameters: the scraper is
  modelled for every parser and every result of the helper.
\<close>

record rating_info =
  rating :: "rat option"
  review_count :: "int option"

definition opt_float :: "rat option \<Rightarrow> pyval" where
  "opt_float r = (case r of Some x \<Rightarrow> PFloat x | None \<Rightarrow> PNone)"

definition opt_int :: "int option \<Rightarrow> pyval" where
  "opt_int r = (case r of Some x \<Rightarrow> PInt x | None \<Rightarrow> PNone)"

definition fiverr_scrape_product ::
  "(nat \<Rightarrow> attempt) \<Rightarrow> (string \<Rightarrow> soup option) \<Rightarrow> (soup \<Rightarrow> rating_info) \<Rightarrow> scrape_result" where
  "fiverr_scrape_product net parse_html extract_fiverr_reviews =
     (case fst (make_request net None) of
        None \<Rightarrow> Raises (''Impossible de r'' @ [CHR 0xE9] @ ''cup'' @ [CHR 0xE9] @ ''rer la page Fiverr'')
      | Some response \<Rightarrow>
          (case parse_html (content response) of
             None \<Rightarrow> Raises ''Impossible de parser le HTML Fiverr''
           | Some page \<Rightarrow>
               (let title = extract_text page
                      [''[data-gig-title]'', ''h1.gig-page-title'', ''.gig-title'', ''h1''];
                    price_text = extract_text page
                      [''.price-value'', ''.starting-price'', ''[data-price]'', ''.price''];
                    price = clean_price price_text;
                    availability = ''Disponible'';
                    rating_info = extract_fiverr_reviews page;
                    description = extract_text page
                      [''.gig-desc-container'', ''.description'', ''.gig-description'']
                in Returns
                     [''title'' \<mapsto> PStr title,
                      ''price'' \<mapsto> PFloat price,
                      ''availability'' \<mapsto> PStr availability,
                      ''rating'' \<mapsto> opt_float (rating rating_info),
                      ''review_count'' \<mapsto> opt_int (review_count rating_info),
                      ''description'' \<mapsto> PStr (take 500 description)])))"

section \<open>The diff engine: \<open>ReportGenerator.generate_comparison_report\<close>\<close>

text \<open>
  A snapshot is a list of rows. Every row has a URL; of the other keys that the report
  reads, a row may lack one (\<open>Absent\<close>, as in the short failure record of the batch
  loop), hold \<open>NaN\<close> (an empty field of a snapshot read back from CSV) or hold a value.
\<close>

datatype 'a cell = Absent | Cell_nan | Cell 'a

record product =
  p_url :: string
  p_title :: "string cell"
  p_price :: "rat cell"
  p_availability :: "string cell"

text \<open>
  What \<open>row.get(key, default)\<close> gives on a row of the \<open>DataFrame\<close> built from the
  snapshot: the frame has the column when some row has the key; a row without a value
  in an existing column reads \<open>NaN\<close>; without the column the default is returned.
\<close>

datatype 'a val = Nan | Value 'a

definition row_get :: "(product \<Rightarrow> 'a cell) \<Rightarrow> 'a \<Rightarrow> product list \<Rightarrow> product \<Rightarrow> 'a val" where
  "row_get col dflt frame row =
     (if list_ex (\<lambda>r. col r \<noteq> Absent) frame
      then (case col row of Cell v \<Rightarrow> Value v | _ \<Rightarrow> Nan)
      else Value dflt)"

text \<open>\<open>x != y\<close> with \<open>NaN\<close>: \<open>NaN\<close> differs from everything, also from \<open>NaN\<close>.\<close>

definition py_ne :: "'a val \<Rightarrow> 'a val \<Rightarrow> bool" where
  "py_ne x y = (case (x, y) of (Value a, Value b) \<Rightarrow> a \<noteq> b | _ \<Rightarrow> True)"

text \<open>\<open>frame[frame['url'] == url].iloc[0]\<close> and \<open>.iloc[-1]\<close>; \<open>None\<close> is the \<open>IndexError\<close>.\<close>

definition first_row :: "product list \<Rightarrow> string \<Rightarrow> product option" where
  "first_row frame url = (case filter (\<lambda>r. p_url r = url) frame of [] \<Rightarrow> None | r # _ \<Rightarrow> Some r)"

definition last_row :: "product list \<Rightarrow> string \<Rightarrow> product option" where
  "last_row frame url = (case filter (\<lambda>r. p_url r = url) frame of [] \<Rightarrow> None | r # rs \<Rightarrow> Some (last (r # rs)))"

record price_change =
  pc_url :: string
  pc_title :: "string val"
  old_price :: rat
  new_price :: rat
  change_percent :: rat

record availability_change =
  ac_url :: string
  ac_title :: "string val"
  old_availability :: "string val"
  new_availability :: "string val"

record new_product =
  np_url :: string
  np_title :: "string val"
  np_price :: "rat val"

record removed_product =
  rp_url :: string
  rp_title :: "string val"
  last_price :: "rat val"

record summary =
  total_price_changes :: nat
  total_availability_changes :: nat
  new_products_count :: nat
  removed_products_count :: nat
  generated_at :: string

record report =
  price_changes :: "price_change list"
  availability_changes :: "availability_change list"
  new_products :: "new_product list"
  removed_products :: "removed_product list"
  report_summary :: "summary option"

datatype py_error = IndexError

text \<open>
  The prices of the snapshots are doubles. A double is the rational number it denotes;
  comparing two doubles and taking the absolute value are exact. Subtraction, division
  and multiplication round their result, and so does \<open>round(x, 2)\<close>: what they return is
  the platform's arithmetic, a parameter \<open>ops\<close> of the report.
\<close>

record float_ops =
  f_sub :: "rat \<Rightarrow> rat \<Rightarrow> rat"
  f_div :: "rat \<Rightarrow> rat \<Rightarrow> rat"
  f_mul :: "rat \<Rightarrow> rat \<Rightarrow> rat"
  f_round2 :: "rat \<Rightarrow> rat"

text \<open>
  IEEE 754 binary64 with rounding to nearest, ties to even, in the normal range (no
  overflow, no subnormal numbers): \<open>fl x\<close> is the double nearest to \<open>x\<close>, with a
  significand of 53 bits. \<open>floor_log2 x\<close> is the exponent \<open>k\<close> with
  \<open>2^k \<le> x < 2^(k+1)\<close>, for positive \<open>x\<close>.
\<close>

fun bit_length :: "nat \<Rightarrow> nat" where
  "bit_length n = (if n = 0 then 0 else Suc (bit_length (n div 2)))"

declare bit_length.simps [simp del]

definition floor_log2 :: "rat \<Rightarrow> int" where
  "floor_log2 x =
     (if 1 \<le> x then int (bit_length (nat \<lfloor>x\<rfloor>)) - 1
      else (let j = int (bit_length (nat \<lfloor>1 / x\<rfloor>))
            in if x * 2 ^ nat (j - 1) = 1 then - (j - 1) else - j))"

definition pow2 :: "int \<Rightarrow> rat" where
  "pow2 e = (if 0 \<le> e then 2 ^ nat e else 1 / 2 ^ nat (- e))"

definition fl :: "rat \<Rightarrow> rat" where
  "fl x =
     (if x = 0 then 0
      else (let e = floor_log2 \<bar>x\<bar> - 52;
                m = round_half_even (\<bar>x\<bar> / pow2 e)
            in sgn x * of_int m * pow2 e))"

text \<open>
  The arithmetic of doubles; \<open>round(x, 2)\<close> on a \<open>numpy.float64\<close>, the type of the
  values read from a frame, multiplies by 100, rounds to the nearest integer (ties to
  even) and divides by 100.
\<close>

definition binary64 :: float_ops where
  "binary64 =
     \<lparr>f_sub = (\<lambda>a b. fl (a - b)),
      f_div = (\<lambda>a b. fl (a / b)),
      f_mul = (\<lambda>a b. fl (a * b)),
      f_round2 = (\<lambda>x. fl (of_int (round_half_even (fl (x * 100))) / 100))\<rparr>"

definition PRICE_CHANGE_THRESHOLD :: rat where
  "PRICE_CHANGE_THRESHOLD = 5"

text \<open>The body of the loop over the common URLs, for the two rows selected.\<close>

definition price_change_of ::
  "float_ops \<Rightarrow> rat \<Rightarrow> product list \<Rightarrow> product list \<Rightarrow> string \<Rightarrow> product \<Rightarrow> product
     \<Rightarrow> price_change list" where
  "price_change_of ops threshold current_df historical_df url current_product historical_product =
     (let current_price = row_get p_price 0 current_df current_product;
          historical_price = row_get p_price 0 historical_df historical_product
      in case (current_price, historical_price) of
           (Value cp, Value hp) \<Rightarrow>
             if cp > 0 \<and> hp > 0 then
               (let price_change_pct = f_mul ops (f_div ops (f_sub ops cp hp) hp) 100
                in if \<bar>price_change_pct\<bar> \<ge> threshold
                   then [\<lparr>pc_url = url,
                          pc_title = row_get p_title [] current_df current_product,
                          old_price = hp, new_price = cp,
                          change_percent = f_round2 ops price_change_pct\<rparr>]
                   else [])
             else []
         | _ \<Rightarrow> [])"

definition availability_change_of ::
  "product list \<Rightarrow> product list \<Rightarrow> string \<Rightarrow> product \<Rightarrow> product \<Rightarrow> availability_change list" where
  "availability_change_of current_df historical_df url current_product historical_product =
     (let current_availability = row_get p_availability [] current_df current_product;
          historical_availability = row_get p_availability [] historical_df historical_product
      in if py_ne current_availability historical_availability
         then [\<lparr>ac_url = url,
                ac_title = row_get p_title [] current_df current_product,
                old_availability = historical_availability,
                new_availability = current_availability\<rparr>]
         else [])"

fun compare_common ::
  "float_ops \<Rightarrow> rat \<Rightarrow> product list \<Rightarrow> product list \<Rightarrow> string list \<Rightarrow> report
     \<Rightarrow> py_error + report" where
  "compare_common ops threshold current_df historical_df [] results = Inr results"
| "compare_common ops threshold current_df historical_df (url # urls) results =
     (case first_row current_df url of
        None \<Rightarrow> Inl IndexError
      | Some current_product \<Rightarrow>
          (case last_row historical_df url of
             None \<Rightarrow> Inl IndexError
           | Some historical_product \<Rightarrow>
               compare_common ops threshold current_df historical_df urls
                 (results
                    \<lparr>price_changes := price_changes results @
                       price_change_of ops threshold current_df historical_df url
                         current_product historical_product,
                     availability_changes := availability_changes results @
                       availability_change_of current_df historical_df url
                         current_product historical_product\<rparr>)))"

fun add_new_products :: "product list \<Rightarrow> string list \<Rightarrow> report \<Rightarrow> py_error + report" where
  "add_new_products current_df [] results = Inr results"
| "add_new_products current_df (url # urls) results =
     (case first_row current_df url of
        None \<Rightarrow> Inl IndexError
      | Some product \<Rightarrow>
          add_new_products current_df urls
            (results
               \<lparr>new_products := new_products results @
                  [\<lparr>np_url = url,
                    np_title = row_get p_title [] current_df product,
                    np_price = row_get p_price 0 current_df product\<rparr>]\<rparr>))"

fun add_removed_products :: "product list \<Rightarrow> string list \<Rightarrow> report \<Rightarrow> py_error + report" where
  "add_removed_products historical_df [] results = Inr results"
| "add_removed_products historical_df (url # urls) results =
     (case last_row historical_df url of
        None \<Rightarrow> Inl IndexError
      | Some product \<Rightarrow>
          add_removed_products historical_df urls
            (results
               \<lparr>removed_products := removed_products results @
                  [\<lparr>rp_url = url,
                    rp_title = row_get p_title [] historical_df product,
                    last_price = row_get p_price 0 historical_df product\<rparr>]\<rparr>))"

text \<open>
  Python does not fix the order in which a \<open>set\<close> is iterated. The three sets of URLs are
  lists without duplicates, and the order of the iteration is a parameter \<open>iter\<close>, any
  function that permutes its argument (\<open>is_iteration\<close>).
\<close>

definition is_iteration :: "(string list \<Rightarrow> string list) \<Rightarrow> bool" where
  "is_iteration iter = (\<forall>xs. mset (iter xs) = mset xs)"

definition urls_of :: "product list \<Rightarrow> string list" where
  "urls_of frame = map p_url frame"

definition common_urls :: "product list \<Rightarrow> product list \<Rightarrow> string list" where
  "common_urls current_df historical_df =
     remdups (filter (\<lambda>u. u \<in> set (urls_of historical_df)) (urls_of current_df))"

definition new_urls :: "product list \<Rightarrow> product list \<Rightarrow> string list" where
  "new_urls current_df historical_df =
     remdups (filter (\<lambda>u. u \<notin> set (urls_of historical_df)) (urls_of current_df))"

definition removed_urls :: "product list \<Rightarrow> product list \<Rightarrow> string list" where
  "removed_urls current_df historical_df =
     remdups (filter (\<lambda>u. u \<notin> set (urls_of current_df)) (urls_of historical_df))"

definition with_summary :: "string \<Rightarrow> report \<Rightarrow> report" where
  "with_summary now results =
     results\<lparr>report_summary := Some
       \<lparr>total_price_changes = length (price_changes results),
        total_availability_changes = length (availability_changes results),
        new_products_count = length (new_products results),
        removed_products_count = length (removed_products results),
        generated_at = now\<rparr>\<rparr>"

text \<open>
  The result is \<open>Inr None\<close> for the empty dictionary \<open>{}\<close> that the function returns when
  one of the snapshots is empty, \<open>Inr (Some results)\<close> for a report and \<open>Inl\<close> for an
  exception. Every row has a URL, so both frames have the column \<open>url\<close>. \<open>ops\<close> is the
  arithmetic of doubles, \<open>threshold\<close> is \<open>config.PRICE_CHANGE_THRESHOLD\<close> and \<open>now\<close> the time
  of the summary.
\<close>

definition generate_comparison_report ::
  "float_ops \<Rightarrow> rat \<Rightarrow> (string list \<Rightarrow> string list) \<Rightarrow> string \<Rightarrow> product list
     \<Rightarrow> product list \<Rightarrow> py_error + report option" where
  "generate_comparison_report ops threshold iter now current_data historical_data =
     (if current_data = [] \<or> historical_data = [] then Inr None
      else
        let comparison_results =
              \<lparr>price_changes = [], availability_changes = [], new_products = [],
               removed_products = [], report_summary = None\<rparr>
        in case compare_common ops threshold current_data historical_data
                  (iter (common_urls current_data historical_data)) comparison_results of
             Inl e \<Rightarrow> Inl e
           | Inr comparison_results \<Rightarrow>
               (case add_new_products current_data
                       (iter (new_urls current_data historical_data)) comparison_results of
                  Inl e \<Rightarrow> Inl e
                | Inr comparison_results \<Rightarrow>
                    (case add_removed_products historical_data
                            (iter (removed_urls current_data historical_data))
                            comparison_results of
                       Inl e \<Rightarrow> Inl e
                     | Inr comparison_results \<Rightarrow>
                         Inr (Some (with_summary now comparison_results)))))"

subsection \<open>The records that one URL contributes\<close>

text \<open>
  What one pass of each loop appends for a URL, as a function of the URL; these are the
  terms in which the report is described below.
\<close>

definition price_changes_for ::
  "float_ops \<Rightarrow> rat \<Rightarrow> product list \<Rightarrow> product list \<Rightarrow> string \<Rightarrow> price_change list" where
  "price_changes_for ops threshold current_df historical_df url =
     (case (first_row current_df url, last_row historical_df url) of
        (Some c, Some h) \<Rightarrow> price_change_of ops threshold current_df historical_df url c h
      | _ \<Rightarrow> [])"

definition availability_changes_for :: "product list \<Rightarrow> product list \<Rightarrow> string \<Rightarrow> availability_change list" where
  "availability_changes_for current_df historical_df url =
     (case (first_row current_df url, last_row historical_df url) of
        (Some c, Some h) \<Rightarrow> availability_change_of current_df historical_df url c h
      | _ \<Rightarrow> [])"

definition new_product_for :: "product list \<Rightarrow> string \<Rightarrow> new_product list" where
  "new_product_for current_df url =
     (case first_row current_df url of
        Some product \<Rightarrow>
          [\<lparr>np_url = url, np_title = row_get p_title [] current_df product,
            np_price = row_get p_price 0 current_df product\<rparr>]
      | None \<Rightarrow> [])"

definition removed_product_for :: "product list \<Rightarrow> string \<Rightarrow> removed_product list" where
  "removed_product_for historical_df url =
     (case last_row historical_df url of
        Some product \<Rightarrow>
          [\<lparr>rp_url = url, rp_title = row_get p_title [] historical_df product,
            last_price = row_get p_price 0 historical_df product\<rparr>]
      | None \<Rightarrow> [])"

text \<open>Rows that share a URL are identical: in particular a snapshot with unique URLs.\<close>

definition url_determines_row :: "product list \<Rightarrow> bool" where
  "url_determines_row frame = (\<forall>r \<in> set frame. \<forall>r' \<in> set frame. p_url r = p_url r' \<longrightarrow> r = r')"

text \<open>
  A row with a title, a price and an availability, for the examples.
\<close>

definition row :: "string \<Rightarrow> rat \<Rightarrow> string \<Rightarrow> product" where
  "row u p a = \<lparr>p_url = u, p_title = Cell ''T'', p_price = Cell p, p_availability = Cell a\<rparr>"

text \<open>The report in closed form: what the three loops build, with its summary.\<close>

definition report_of ::
  "float_ops \<Rightarrow> rat \<Rightarrow> (string list \<Rightarrow> string list) \<Rightarrow> string \<Rightarrow> product list
     \<Rightarrow> product list \<Rightarrow> report" where
  "report_of ops th iter now cur hist =
     with_summary now
       \<lparr>price_changes =
          concat (map (price_changes_for ops th cur hist) (iter (common_urls cur hist))),
        availability_changes =
          concat (map (availability_changes_for cur hist) (iter (common_urls cur hist))),
        new_products = concat (map (new_product_for cur) (iter (new_urls cur hist))),
        removed_products = concat (map (removed_product_for hist) (iter (removed_urls cur hist))),
        report_summary = None\<rparr>"

section \<open>Ratings and review counts: \<open>BaseScraper._extract_rating\<close>\<close>

text \<open>
  The regular expressions of the function are sequences of character classes, each taken
  once, optionally (\<open>?\<close>), any number of times (\<open>*\<close>) or at least once (\<open>+\<close>), with one
  group that opens at the start of the expression. \<open>\s\<close> is Python's white space on
  Latin-1. The star U+2605 of the second pattern matches no character of the model.
\<close>

datatype cls = Digit | Space | Lit char | Any_of string | Black_star

definition py_isspace :: "char \<Rightarrow> bool" where
  "py_isspace c =
     (let n = (of_char c :: nat)
      in (9 \<le> n \<and> n \<le> 13) \<or> (28 \<le> n \<and> n \<le> 32) \<or> n = 133 \<or> n = 160)"

fun cls_matches :: "cls \<Rightarrow> char \<Rightarrow> bool" where
  "cls_matches Digit c = is_digit c"
| "cls_matches Space c = py_isspace c"
| "cls_matches (Lit l) c = (c = l)"
| "cls_matches (Any_of s) c = (c \<in> set s)"
| "cls_matches Black_star c = False"

datatype item = Once cls | Optional cls | Many cls | Many1 cls

text \<open>
  A match of the items at the start of the text, as the backtracking matcher of \<open>re\<close>
  finds it: a repetition first takes as many characters as it can and gives them back
  one by one while the rest fails. The result lists the text that each item consumed.
\<close>

fun match_here :: "item list \<Rightarrow> string \<Rightarrow> string list option" where
  "match_here [] s = Some []"
| "match_here (Once c # its) [] = None"
| "match_here (Once c # its) (x # xs) =
     (if cls_matches c x then map_option ((#) [x]) (match_here its xs) else None)"
| "match_here (Optional c # its) [] = map_option ((#) []) (match_here its [])"
| "match_here (Optional c # its) (x # xs) =
     (if cls_matches c x then
        (case match_here its xs of
           Some r \<Rightarrow> Some ([x] # r)
         | None \<Rightarrow> map_option ((#) []) (match_here its (x # xs)))
      else map_option ((#) []) (match_here its (x # xs)))"
| "match_here (Many c # its) [] = map_option ((#) []) (match_here its [])"
| "match_here (Many c # its) (x # xs) =
     (if cls_matches c x then
        (case match_here (Many c # its) xs of
           Some (w # r) \<Rightarrow> Some ((x # w) # r)
         | _ \<Rightarrow> map_option ((#) []) (match_here its (x # xs)))
      else map_option ((#) []) (match_here its (x # xs)))"
| "match_here (Many1 c # its) [] = None"
| "match_here (Many1 c # its) (x # xs) =
     (if cls_matches c x then
        (case match_here (Many c # its) xs of
           Some (w # r) \<Rightarrow> Some ((x # w) # r)
         | _ \<Rightarrow> None)
      else None)"

text \<open>\<open>re.search\<close>: the match at the leftmost position that has one.\<close>

fun search :: "item list \<Rightarrow> string \<Rightarrow> string list option" where
  "search its [] = match_here its []"
| "search its (x # xs) =
     (case match_here its (x # xs) of Some r \<Rightarrow> Some r | None \<Rightarrow> search its xs)"

record pattern =
  group_items :: "item list"
  rest_items :: "item list"

text \<open>\<open>re.search(pattern, text)\<close> followed by \<open>match.group(1)\<close>; \<open>None\<close> when nothing matches.\<close>

definition search_group :: "pattern \<Rightarrow> string \<Rightarrow> string option" where
  "search_group p s =
     map_option (\<lambda>r. concat (take (length (group_items p)) r))
       (search (group_items p @ rest_items p) s)"

definition literal :: "string \<Rightarrow> item list" where
  "literal s = map (\<lambda>c. Once (Lit c)) s"

definition decimal_group :: "item list" where
  "decimal_group = [Many1 Digit, Once (Any_of ''.,''), Many1 Digit]"

definition rating_patterns :: "pattern list" where
  "rating_patterns =
     [\<lparr>group_items = decimal_group,
       rest_items = [Many Space, Once (Any_of ''/sur''), Many Space, Once (Lit (CHR ''5''))]\<rparr>,
      \<lparr>group_items = decimal_group, rest_items = [Many Space, Once Black_star]\<rparr>,
      \<lparr>group_items = decimal_group,
       rest_items = [Many Space] @ literal ([CHR 0xE9] @ ''toile'') @ [Optional (Lit (CHR ''s''))]\<rparr>,
      \<lparr>group_items = decimal_group,
       rest_items = [Many Space] @ literal ''star'' @ [Optional (Lit (CHR ''s''))]\<rparr>]"

definition review_patterns :: "pattern list" where
  "review_patterns =
     [\<lparr>group_items = [Many1 Digit], rest_items = [Many Space] @ literal ''avis''\<rparr>,
      \<lparr>group_items = [Many1 Digit],
       rest_items = [Many Space] @ literal ''review'' @ [Optional (Lit (CHR ''s''))]\<rparr>,
      \<lparr>group_items = [Many1 Digit],
       rest_items = [Many Space] @ literal ([CHR 0xE9] @ ''valuation'') @ [Optional (Lit (CHR ''s''))]\<rparr>]"

text \<open>
  \<open>int(s)\<close> on the text of a group \<open>(\d+)\<close>, a string of digits; \<open>None\<close> is the
  \<open>ValueError\<close>.
\<close>

definition int_of_digits :: "string \<Rightarrow> int option" where
  "int_of_digits s = (if s \<noteq> [] \<and> list_all is_digit s then Some (int (nat_of_digits s)) else None)"

text \<open>The two loops: the first pattern that matches and converts ends the loop.\<close>

fun find_rating :: "pattern list \<Rightarrow> string \<Rightarrow> rat option" where
  "find_rating [] t = None"
| "find_rating (p # ps) t =
     (case search_group p t of
        Some g \<Rightarrow>
          (case float_of_decimal (replace_char (CHR '','') (CHR ''.'') g) of
             Some v \<Rightarrow> Some v
           | None \<Rightarrow> find_rating ps t)
      | None \<Rightarrow> find_rating ps t)"

fun find_review_count :: "pattern list \<Rightarrow> string \<Rightarrow> int option" where
  "find_review_count [] t = None"
| "find_review_count (p # ps) t =
     (case search_group p t of
        Some g \<Rightarrow>
          (case int_of_digits g of
             Some n \<Rightarrow> Some n
           | None \<Rightarrow> find_review_count ps t)
      | None \<Rightarrow> find_review_count ps t)"

definition extract_rating :: "string \<Rightarrow> rating_info" where
  "extract_rating rating_text =
     (if rating_text = [] then \<lparr>rating = None, review_count = None\<rparr>
      else \<lparr>rating = find_rating rating_patterns (lower rating_text),
            review_count = find_review_count review_patterns (lower rating_text)\<rparr>)"


chapter \<open>Verification\<close>

section \<open>Proofs: price normalisation\<close>

lemma split_on_not_Nil: "split_on sep s \<noteq> []"
  by (induction s) (auto split: list.splits)

lemma split_on_no_sep: "sep \<notin> set s \<Longrightarrow> split_on sep s = [s]"
  by (induction s) auto

lemma split_on_single: "split_on sep s = [p] \<Longrightarrow> sep \<notin> set s"
  by (induction s arbitrary: p) (auto simp: split_on_not_Nil split: list.splits if_splits)

lemma takeWhile_rev_absent:
  "c \<notin> set xs \<Longrightarrow> takeWhile (\<lambda>x. x \<noteq> c) (rev xs @ ys) = rev xs @ takeWhile (\<lambda>x. x \<noteq> c) ys"
  by (rule takeWhile_append2) auto

lemma last_split_on: "last (split_on sep s) = rev (takeWhile (\<lambda>x. x \<noteq> sep) (rev s))"
proof (induction s)
  case Nil
  then show ?case by simp
next
  case (Cons c cs)
  show ?case
  proof (cases "sep \<in> set cs")
    case True
    then have tw: "takeWhile (\<lambda>x. x \<noteq> sep) (rev cs @ [c]) = takeWhile (\<lambda>x. x \<noteq> sep) (rev cs)"
      by (simp add: takeWhile_append1)
    obtain p ps where sp: "split_on sep cs = p # ps"
      using split_on_not_Nil [of sep cs] by (cases "split_on sep cs") auto
    have ps: "ps \<noteq> []"
      using split_on_single [of sep cs p] sp True by auto
    show ?thesis using Cons.IH sp ps tw by simp
  next
    case False
    then show ?thesis
      by (auto simp: split_on_no_sep takeWhile_rev_absent)
  qed
qed

lemma rfind_from_eq:
  "rfind_from c s i found =
     (if c \<in> set s then i + int (length s) - 1 - int (length (takeWhile (\<lambda>x. x \<noteq> c) (rev s)))
      else found)"
proof (induction s arbitrary: i found)
  case Nil
  then show ?case by simp
next
  case (Cons x xs)
  show ?case
  proof (cases "c \<in> set xs")
    case True
    then show ?thesis using Cons.IH by (simp add: takeWhile_append1)
  next
    case False
    then show ?thesis using Cons.IH by (auto simp: takeWhile_rev_absent)
  qed
qed

lemma rfind_eq:
  "c \<in> set s \<Longrightarrow> rfind c s = int (length s) - 1 - int (length (takeWhile (\<lambda>x. x \<noteq> c) (rev s)))"
  by (simp add: rfind_def rfind_from_eq)

lemma later_separator_rev:
  "CHR '','' \<in> set q \<or> CHR ''.'' \<in> set q \<Longrightarrow>
   (length (takeWhile (\<lambda>x. x \<noteq> CHR '','') q) < length (takeWhile (\<lambda>x. x \<noteq> CHR ''.'') q))
     = (hd (filter is_separator q) = CHR '','')"
proof (induction q)
  case Nil
  then show ?case by simp
next
  case (Cons x q)
  then show ?case
    by (cases "x = CHR '',''"; cases "x = CHR ''.''") (auto simp: is_separator_def)
qed

lemma rfind_later:
  assumes "CHR '','' \<in> set p" "CHR ''.'' \<in> set p"
  shows "(rfind (CHR '','') p > rfind (CHR ''.'') p) = (last (filter is_separator p) = CHR '','')"
proof -
  have ne: "filter is_separator p \<noteq> []"
    using assms by (auto simp: filter_empty_conv is_separator_def)
  have "last (filter is_separator p) = hd (filter is_separator (rev p))"
    using ne by (simp add: hd_rev rev_filter [symmetric])
  moreover have "(length (takeWhile (\<lambda>x. x \<noteq> CHR '','') (rev p)) < length (takeWhile (\<lambda>x. x \<noteq> CHR ''.'') (rev p)))
     = (hd (filter is_separator (rev p)) = CHR '','')"
    using assms by (intro later_separator_rev) simp
  ultimately show ?thesis
    using assms by (simp add: rfind_eq) 
qed


lemma re_sub_price_spec: "re_sub_price t = filter (\<lambda>c. is_digit c \<or> is_separator c) t"
  unfolding re_sub_price_def is_separator_def by (rule filter_cong) auto

lemma keeps_re_sub_price: "list_all (\<lambda>c. is_digit c \<or> is_separator c) (re_sub_price t)"
  by (simp add: re_sub_price_spec list_all_iff)

lemma separator_not_digit: "\<not> is_digit (CHR '','')" "\<not> is_digit (CHR ''.'')"
  by (simp_all add: is_digit_def)

lemma european_string:
  "list_all (\<lambda>c. is_digit c \<or> is_separator c) p \<Longrightarrow>
   replace_char (CHR '','') (CHR ''.'') (remove_char (CHR ''.'') p)
     = concat (map (\<lambda>c. if is_digit c then [c] else if Some c = Some (CHR '','') then ''.'' else []) p)"
  by (induction p) (auto simp: replace_char_def remove_char_def is_separator_def separator_not_digit)

lemma american_string:
  "list_all (\<lambda>c. is_digit c \<or> is_separator c) p \<Longrightarrow>
   remove_char (CHR '','') p
     = concat (map (\<lambda>c. if is_digit c then [c] else if Some c = Some (CHR ''.'') then ''.'' else []) p)"
  by (induction p) (auto simp: remove_char_def is_separator_def separator_not_digit)

lemma comma_decimal_string:
  "list_all (\<lambda>c. is_digit c \<or> is_separator c) p \<Longrightarrow> CHR ''.'' \<notin> set p \<Longrightarrow>
   replace_char (CHR '','') (CHR ''.'') p
     = concat (map (\<lambda>c. if is_digit c then [c] else if Some c = Some (CHR '','') then ''.'' else []) p)"
  by (induction p) (auto simp: replace_char_def is_separator_def separator_not_digit)

lemma comma_thousands_string:
  "list_all (\<lambda>c. is_digit c \<or> is_separator c) p \<Longrightarrow> CHR ''.'' \<notin> set p \<Longrightarrow>
   remove_char (CHR '','') p
     = concat (map (\<lambda>c. if is_digit c then [c] else if Some c = None then ''.'' else []) p)"
  by (induction p) (auto simp: remove_char_def is_separator_def separator_not_digit)

lemma period_only_string:
  "list_all (\<lambda>c. is_digit c \<or> is_separator c) p \<Longrightarrow> CHR '','' \<notin> set p \<Longrightarrow>
   p = concat (map (\<lambda>c. if is_digit c then [c] else if Some c = Some (CHR ''.'') then ''.'' else []) p)"
  by (induction p) (auto simp: is_separator_def separator_not_digit)

lemma digits_only_string:
  "list_all (\<lambda>c. is_digit c \<or> is_separator c) p \<Longrightarrow> CHR '','' \<notin> set p \<Longrightarrow> CHR ''.'' \<notin> set p \<Longrightarrow>
   p = concat (map (\<lambda>c. if is_digit c then [c] else if Some c = None then ''.'' else []) p)"
  by (induction p) (auto simp: is_separator_def separator_not_digit)

lemma digits_after_comma:
  assumes "list_all (\<lambda>c. is_digit c \<or> is_separator c) p" "CHR ''.'' \<notin> set p"
  shows "length (last (split_on (CHR '','') p)) = length (takeWhile is_digit (rev p))"
proof -
  have "takeWhile (\<lambda>x. x \<noteq> CHR '','') (rev p) = takeWhile is_digit (rev p)"
  proof (rule takeWhile_cong)
    fix x assume "x \<in> set (rev p)"
    then show "(x \<noteq> CHR '','') = is_digit x"
      using assms by (auto simp: list_all_iff is_separator_def separator_not_digit)
  qed simp
  then show ?thesis by (simp add: last_split_on)
qed

lemma last_separator:
  assumes "CHR '','' \<in> set p"
  shows "last (filter is_separator p) = CHR '','' \<or> last (filter is_separator p) = CHR ''.''"
proof -
  have "filter is_separator p \<noteq> []"
    using assms by (auto simp: filter_empty_conv is_separator_def)
  then have "last (filter is_separator p) \<in> set (filter is_separator p)" by (rule last_in_set)
  then show ?thesis by (auto simp: is_separator_def)
qed

lemma price_separators_spec:
  assumes k: "list_all (\<lambda>c. is_digit c \<or> is_separator c) p"
  shows "price_separators p =
     concat (map (\<lambda>c. if is_digit c then [c] else if Some c = decimal_separator_spec p then ''.'' else []) p)"
proof (cases "CHR '','' \<in> set p")
  case comma: True
  show ?thesis
  proof (cases "CHR ''.'' \<in> set p")
    case period: True
    show ?thesis
    proof (cases "last (filter is_separator p) = CHR '',''")
      case True
      have d: "decimal_separator_spec p = Some (CHR '','')"
        using comma period True by (simp add: decimal_separator_spec_def)
      have "price_separators p = replace_char (CHR '','') (CHR ''.'') (remove_char (CHR ''.'') p)"
        using comma period True by (simp add: price_separators_def rfind_later)
      then show ?thesis unfolding d by (simp only: european_string [OF k])
    next
      case False
      then have l: "last (filter is_separator p) = CHR ''.''"
        using last_separator [OF comma] by simp
      have d: "decimal_separator_spec p = Some (CHR ''.'')"
        using comma period l by (simp add: decimal_separator_spec_def)
      have "price_separators p = remove_char (CHR '','') p"
        using comma period False by (simp add: price_separators_def rfind_later)
      then show ?thesis unfolding d by (simp only: american_string [OF k])
    qed
  next
    case period: False
    show ?thesis
    proof (cases "length (takeWhile is_digit (rev p)) \<le> 2")
      case True
      have d: "decimal_separator_spec p = Some (CHR '','')"
        using comma period True by (simp add: decimal_separator_spec_def)
      have "price_separators p = replace_char (CHR '','') (CHR ''.'') p"
        using comma period True by (simp add: price_separators_def digits_after_comma [OF k])
      then show ?thesis unfolding d by (simp only: comma_decimal_string [OF k period])
    next
      case False
      have d: "decimal_separator_spec p = None"
        using comma period False by (simp add: decimal_separator_spec_def)
      have "price_separators p = remove_char (CHR '','') p"
        using comma period False by (simp add: price_separators_def digits_after_comma [OF k])
      then show ?thesis unfolding d by (simp only: comma_thousands_string [OF k period])
    qed
  qed
next
  case comma: False
  show ?thesis
  proof (cases "CHR ''.'' \<in> set p")
    case True
    have d: "decimal_separator_spec p = Some (CHR ''.'')"
      using comma True by (simp add: decimal_separator_spec_def)
    have "price_separators p = p"
      using comma by (simp add: price_separators_def)
    then show ?thesis unfolding d using period_only_string [OF k comma] by simp
  next
    case False
    have d: "decimal_separator_spec p = None"
      using comma False by (simp add: decimal_separator_spec_def)
    have "price_separators p = p"
      using comma by (simp add: price_separators_def)
    then show ?thesis unfolding d using digits_only_string [OF k comma False] by simp
  qed
qed

lemma price_separators_decimal:
  "list_all (\<lambda>c. is_digit c \<or> c = CHR ''.'') (price_separators (re_sub_price t))"
  by (simp add: price_separators_spec [OF keeps_re_sub_price] list_all_iff)

lemma clean_price_refines: "clean_price t = normalizePrice_spec t"
proof (cases "t = []")
  case True
  then show ?thesis
    by (simp add: clean_price_def normalizePrice_spec_def float_of_decimal_def)
next
  case False
  define p where "p = re_sub_price t"
  have p: "filter (\<lambda>c. is_digit c \<or> is_separator c) t = p"
    by (simp add: p_def re_sub_price_spec)
  have k: "list_all (\<lambda>c. is_digit c \<or> is_separator c) p"
    unfolding p_def by (rule keeps_re_sub_price)
  have "clean_price t = (case float_of_decimal (price_separators p) of Some v \<Rightarrow> v | None \<Rightarrow> 0)"
    using False by (simp add: clean_price_def p_def)
  also have "\<dots> = normalizePrice_spec t"
    unfolding normalizePrice_spec_def Let_def p price_separators_spec [OF k] ..
  finally show ?thesis .
qed

lemma split_on_append: "sep \<notin> set a \<Longrightarrow> split_on sep (a @ sep # r) = a # split_on sep r"
  by (induction a) auto

lemma digits_no_separator:
  "list_all is_digit s \<Longrightarrow> CHR '','' \<notin> set s \<and> CHR ''.'' \<notin> set s"
  using separator_not_digit by (auto simp: list_all_iff)

lemma float_of_decimal_digits:
  "list_all is_digit s \<Longrightarrow> s \<noteq> [] \<Longrightarrow> float_of_decimal s = Some (of_nat (nat_of_digits s))"
  using digits_no_separator [of s]
  by (auto simp: float_of_decimal_def split_on_no_sep list_all_iff)

lemma float_of_decimal_point:
  assumes "list_all is_digit a" "list_all is_digit b" "a \<noteq> []"
  shows "float_of_decimal (a @ CHR ''.'' # b)
           = Some (of_nat (nat_of_digits a) + of_nat (nat_of_digits b) / 10 ^ length b)"
proof -
  have "split_on (CHR ''.'') (a @ CHR ''.'' # b) = [a, b]"
    using digits_no_separator [OF assms(1)] digits_no_separator [OF assms(2)]
    by (simp add: split_on_append split_on_no_sep)
  moreover have "list_all (\<lambda>c. is_digit c \<or> c = CHR ''.'') (a @ CHR ''.'' # b)"
    using assms by (auto simp: list_all_iff)
  ultimately show ?thesis using assms(3) by (simp add: float_of_decimal_def)
qed

lemma remove_char_absent: "c \<notin> set s \<Longrightarrow> remove_char c s = s"
  by (induction s) (auto simp: remove_char_def)

lemma replace_char_absent: "c \<notin> set s \<Longrightarrow> replace_char c d s = s"
  by (induction s) (auto simp: replace_char_def)

lemma remove_char_append: "remove_char c (xs @ ys) = remove_char c xs @ remove_char c ys"
  by (simp add: remove_char_def)

lemma replace_char_append: "replace_char c d (xs @ ys) = replace_char c d xs @ replace_char c d ys"
  by (simp add: replace_char_def)

lemma clean_price_lone_comma:
  assumes a: "list_all is_digit a" and b: "list_all is_digit b" and ne: "a \<noteq> []"
  shows "clean_price (a @ CHR '','' # b) =
           (if length b \<le> 2 then of_nat (nat_of_digits a) + of_nat (nat_of_digits b) / 10 ^ length b
            else of_nat (nat_of_digits (a @ b)))"
proof -
  let ?t = "a @ CHR '','' # b"
  have na: "CHR '','' \<notin> set a" "CHR ''.'' \<notin> set a" using digits_no_separator [OF a] by simp_all
  have nb: "CHR '','' \<notin> set b" "CHR ''.'' \<notin> set b" using digits_no_separator [OF b] by simp_all
  have keep: "re_sub_price ?t = ?t"
    using a b by (auto simp: re_sub_price_def list_all_iff filter_id_conv)
  have sp: "split_on (CHR '','') ?t = [a, b]"
    using na nb by (simp add: split_on_append split_on_no_sep)
  have rep: "replace_char (CHR '','') (CHR ''.'') ?t = a @ CHR ''.'' # b"
    using na nb replace_char_absent [of "CHR '',''" a] replace_char_absent [of "CHR '',''" b]
    by (simp add: replace_char_append) (simp add: replace_char_def)
  have rem: "remove_char (CHR '','') ?t = a @ b"
    using na nb remove_char_absent [of "CHR '',''" a] remove_char_absent [of "CHR '',''" b]
    by (simp add: remove_char_append) (simp add: remove_char_def)
  have sep: "price_separators ?t = (if length b \<le> 2 then a @ CHR ''.'' # b else a @ b)"
    using na nb by (simp add: price_separators_def sp rep rem)
  have "list_all is_digit (a @ b)" using a b by simp
  then have fl: "float_of_decimal (a @ b) = Some (of_nat (nat_of_digits (a @ b)))"
    using ne by (intro float_of_decimal_digits) simp_all
  show ?thesis
    by (simp add: clean_price_def keep sep fl float_of_decimal_point [OF a b ne])
qed

lemmas price_eval = clean_price_def re_sub_price_def price_separators_def rfind_def is_digit_def
  replace_char_def remove_char_def float_of_decimal_def nat_of_digits_def digit_val_def
  normalizePrice_spec_def decimal_separator_spec_def is_separator_def

text \<open>
  Claim C1. \<open>_clean_price\<close> is a total function of its text: it computes what the
  specification's normaliser describes (strip everything but digits, comma and period;
  the later of the two separators is the decimal one; a lone comma is decimal exactly when
  at most two digits follow it; a parse failure gives 0). For digit strings \<open>a\<close>, \<open>b\<close>
  the text \<open>a,b\<close> is read as the decimal \<open>a.b\<close> when \<open>b\<close> has at most two digits
  and as the integer \<open>ab\<close> otherwise. The four examples of the specification hold.
\<close>

theorem clean_price_normalises:
  "clean_price t = normalizePrice_spec t
   \<and> (list_all is_digit a \<and> a \<noteq> [] \<and> list_all is_digit b \<longrightarrow>
        clean_price (a @ CHR '','' # b) =
          (if length b \<le> 2 then of_nat (nat_of_digits a) + of_nat (nat_of_digits b) / 10 ^ length b
           else of_nat (nat_of_digits (a @ b))))
   \<and> clean_price ''1.234,56'' = 123456 / 100
   \<and> clean_price ''1,234.56'' = 123456 / 100
   \<and> clean_price ''12,50'' = 1250 / 100
   \<and> clean_price ''abc'' = 0"
proof -
  have "clean_price ''1.234,56'' = 123456 / 100" by (simp add: price_eval)
  moreover have "clean_price ''1,234.56'' = 123456 / 100" by (simp add: price_eval)
  moreover have "clean_price ''12,50'' = 1250 / 100" by (simp add: price_eval)
  moreover have "clean_price ''abc'' = 0" by (simp add: price_eval)
  ultimately show ?thesis
    using clean_price_refines [of t] clean_price_lone_comma [of a b] by blast
qed

theorem clean_price_normalises_witness:
  "clean_price ''EUR 1.234,56'' = normalizePrice_spec ''EUR 1.234,56''
   \<and> normalizePrice_spec ''EUR 1.234,56'' = 123456 / 100
   \<and> list_all is_digit ''1'' \<and> ''1'' \<noteq> [] \<and> list_all is_digit ''234''
   \<and> clean_price ''1,234'' = 1234
   \<and> clean_price ''1,23'' = 123 / 100"
  using clean_price_normalises [of "''EUR 1.234,56''" "''1''" "''234''"]
    clean_price_normalises [of "[]" "''1''" "''23''"]
  by (simp add: price_eval)


section \<open>Proofs: availability\<close>

lemmas text_eval = lower_def lower_char_def char_of_def bit_Suc_0_iff any_in_def py_isdigit_def
  is_digit_def select_one_def is_disabled_def page_with_text_def

lemmas availability_eval = EN_STOCK_def RUPTURE_DE_STOCK_def TEMPORAIREMENT_INDISPONIBLE_def
  DISPONIBILITE_INCONNUE_def ANNONCE_EXPIREE_def availability_enum_def classify_amazon_def
  extract_amazon_availability_def etsy_sold_out_words_def etsy_add_button_def
  extract_etsy_availability_def in_stock_keywords_def out_of_stock_keywords_def
  determine_availability_def

lemma classify_amazon_values:
  "classify_amazon t \<in> {EN_STOCK, TEMPORAIREMENT_INDISPONIBLE, RUPTURE_DE_STOCK, DISPONIBILITE_INCONNUE}
   \<or> (classify_amazon t = t \<and> t \<noteq> [] \<and> \<not> any_in amazon_keywords (lower t))"
  by (auto simp: classify_amazon_def Let_def any_in_def amazon_keywords_def)

lemma etsy_add_button_values:
  "etsy_add_button page \<in> {EN_STOCK, RUPTURE_DE_STOCK, DISPONIBILITE_INCONNUE}"
  by (simp add: etsy_add_button_def split: option.splits)

lemma extract_etsy_availability_values:
  "extract_etsy_availability page \<in> {EN_STOCK, RUPTURE_DE_STOCK, DISPONIBILITE_INCONNUE}
   \<or> (\<exists>stock_text. stock_text \<noteq> [] \<and> list_ex py_isdigit stock_text
        \<and> extract_etsy_availability page = ''En stock ('' @ stock_text @ '')'')"
  using etsy_add_button_values [of page]
  by (auto simp: extract_etsy_availability_def Let_def)

lemma determine_availability_values:
  "determine_availability t page \<in> {EN_STOCK, RUPTURE_DE_STOCK, DISPONIBILITE_INCONNUE}"
proof -
  have "buttons_availability bs \<in> {RUPTURE_DE_STOCK, DISPONIBILITE_INCONNUE}" for bs
    by (induction bs) auto
  from this [of "add_to_cart_buttons page"] show ?thesis
    by (auto simp: determine_availability_def Let_def)
qed

text \<open>
  Claim C2, as the code has it. The three classifiers are total functions without a
  raising branch. Shopify's result is one of three enum values. Amazon's result is one of
  four enum values or, when the extracted text is not empty and has none of the keywords,
  that text itself, unchanged. Etsy's result is one of three enum values or, for a stock
  text with a digit, the string \<open>En stock (text)\<close>.
\<close>

theorem availability_values:
  "(extract_amazon_availability page
      \<in> {EN_STOCK, TEMPORAIREMENT_INDISPONIBLE, RUPTURE_DE_STOCK, DISPONIBILITE_INCONNUE}
    \<or> (\<exists>t. t = extract_text page [''#availability span'', ''.a-alert-content'', ''.availability-msg'']
          \<and> extract_amazon_availability page = t \<and> t \<noteq> []
          \<and> \<not> any_in amazon_keywords (lower t)))
   \<and> (extract_etsy_availability page \<in> {EN_STOCK, RUPTURE_DE_STOCK, DISPONIBILITE_INCONNUE}
      \<or> (\<exists>stock_text. stock_text \<noteq> [] \<and> list_ex py_isdigit stock_text
            \<and> extract_etsy_availability page = ''En stock ('' @ stock_text @ '')''))
   \<and> determine_availability availability_text page
        \<in> {EN_STOCK, RUPTURE_DE_STOCK, DISPONIBILITE_INCONNUE}"
  using classify_amazon_values
          [of "extract_text page [''#availability span'', ''.a-alert-content'', ''.availability-msg'']"]
        extract_etsy_availability_values [of page]
        determine_availability_values [of availability_text page]
  unfolding extract_amazon_availability_def by blast

theorem availability_values_witness:
  "extract_amazon_availability (page_with_text ''#availability span'' ''Ships soon'') = ''Ships soon''
   \<and> \<not> any_in amazon_keywords (lower ''Ships soon'')
   \<and> extract_etsy_availability (page_with_text ''#availability span'' ''Ships soon'')
       = DISPONIBILITE_INCONNUE"
  using availability_values
          [of "page_with_text ''#availability span'' ''Ships soon''" "''Ships soon''"]
  by (simp add: availability_eval text_eval amazon_keywords_def)

text \<open>
  Claim C2 as stated fails: for the text \<open>Ships soon\<close> Amazon's classifier returns the
  text, which is none of the five enum values.
\<close>

theorem availability_raw_text_counterexample:
  "classify_amazon ''Ships soon'' = ''Ships soon''
   \<and> extract_amazon_availability (page_with_text ''#availability span'' ''Ships soon'') = ''Ships soon''
   \<and> ''Ships soon'' \<notin> set availability_enum"
  by (simp add: availability_eval text_eval)

lemma shopify_out_of_stock_first:
  "any_in out_of_stock_keywords (lower t) \<Longrightarrow> determine_availability t page = RUPTURE_DE_STOCK"
  by (simp add: determine_availability_def)

lemma shopify_temporairement_indisponible:
  "determine_availability ''Temporairement indisponible'' page = RUPTURE_DE_STOCK"
  by (simp add: availability_eval text_eval)

text \<open>
  Claim C3 at the text of its own example. \<open>_extract_amazon_availability\<close> tests the
  in-stock keywords first, and \<open>disponible\<close> is a part of \<open>indisponible\<close>: the text
  \<open>Temporairement indisponible\<close> is classified \<open>En stock\<close>. Shopify's classifier, which
  tests the out-of-stock keywords first, gives \<open>Rupture de stock\<close> for the same text
  (lemma \<open>shopify_temporairement_indisponible\<close>).
\<close>

theorem amazon_indisponible_in_stock:
  "classify_amazon ''Temporairement indisponible'' = EN_STOCK
   \<and> extract_amazon_availability
        (page_with_text ''#availability span'' ''Temporairement indisponible'') = ''En stock''
   \<and> any_in [''temporairement'', ''currently unavailable'', ''indisponible'']
        (lower ''Temporairement indisponible'')"
  by (simp add: availability_eval text_eval)

section \<open>Proofs: the fetcher\<close>

lemma request_loop_attempts:
  "length (filter (\<lambda>e. e = Get) (snd (request_loop net i n trace)))
     \<le> length (filter (\<lambda>e. e = Get) trace) + n"
proof (induction n arbitrary: i trace)
  case 0
  then show ?case by simp
next
  case (Suc n)
  show ?case
    using Suc.IH [of "i + 1" "(if i > 0 then trace @ [Retry_delay] else trace) @ [Get]"]
          Suc.IH [of "i + 1" "(if i > 0 then trace @ [Retry_delay] else trace) @ [Get] @ [Blocked_delay]"]
    by (auto simp: Let_def split: attempt.splits)
qed

lemma request_loop_None:
  "(fst (request_loop net i n trace) = None) = (\<forall>k<n. \<not> is_ok (net (i + k)))"
proof (induction n arbitrary: i trace)
  case 0
  then show ?case by simp
next
  case (Suc n)
  have shift: "(\<forall>k<Suc n. \<not> is_ok (net (i + k))) = (\<not> is_ok (net i) \<and> (\<forall>k<n. \<not> is_ok (net (i + 1 + k))))"
    by (auto simp: less_Suc_eq_0_disj)
  show ?case
    unfolding shift
    by (auto simp: Let_def is_ok_def Suc.IH split: attempt.splits)
qed

lemma request_loop_first:
  "fst (request_loop net i n trace) = Some r \<longleftrightarrow>
     (\<exists>k<n. net (i + k) = Response r \<and> status_code r = 200 \<and> (\<forall>j<k. \<not> is_ok (net (i + j))))"
proof (induction n arbitrary: i trace)
  case 0
  then show ?case by simp
next
  case (Suc n)
  show ?case
  proof (cases "is_ok (net i)")
    case True
    then obtain r0 where r0: "net i = Response r0" "status_code r0 = 200"
      by (auto simp: is_ok_def split: attempt.splits)
    have "(\<exists>k<Suc n. net (i + k) = Response r \<and> status_code r = 200 \<and> (\<forall>j<k. \<not> is_ok (net (i + j)))) = (r = r0)"
    proof
      assume "\<exists>k<Suc n. net (i + k) = Response r \<and> status_code r = 200 \<and> (\<forall>j<k. \<not> is_ok (net (i + j)))"
      then obtain k where k: "net (i + k) = Response r" "\<forall>j<k. \<not> is_ok (net (i + j))" by blast
      have "k = 0" using k(2) True by (cases k) auto
      then show "r = r0" using k(1) r0 by simp
    next
      assume "r = r0"
      then show "\<exists>k<Suc n. net (i + k) = Response r \<and> status_code r = 200 \<and> (\<forall>j<k. \<not> is_ok (net (i + j)))"
        using r0 by (intro exI [of _ 0]) simp
    qed
    moreover have "fst (request_loop net i (Suc n) trace) = Some r0"
      using r0 by (simp add: Let_def)
    ultimately show ?thesis by auto
  next
    case False
    have step: "fst (request_loop net i (Suc n) trace) = Some r \<longleftrightarrow>
       (\<exists>k<n. net (i + 1 + k) = Response r \<and> status_code r = 200 \<and> (\<forall>j<k. \<not> is_ok (net (i + 1 + j))))"
      using False by (auto simp: Let_def is_ok_def Suc.IH split: attempt.splits)
    have "(\<exists>k<Suc n. net (i + k) = Response r \<and> status_code r = 200 \<and> (\<forall>j<k. \<not> is_ok (net (i + j))))
        = (\<exists>k<n. net (i + 1 + k) = Response r \<and> status_code r = 200 \<and> (\<forall>j<k. \<not> is_ok (net (i + 1 + j))))"
    proof
      assume "\<exists>k<Suc n. net (i + k) = Response r \<and> status_code r = 200 \<and> (\<forall>j<k. \<not> is_ok (net (i + j)))"
      then obtain k where k: "k < Suc n" "net (i + k) = Response r" "status_code r = 200"
        "\<forall>j<k. \<not> is_ok (net (i + j))" by blast
      have "k \<noteq> 0"
      proof
        assume "k = 0"
        then have "is_ok (net i)" using k(2,3) by (simp add: is_ok_def)
        then show False using False by simp
      qed
      then obtain k' where k': "k = Suc k'" by (cases k) auto
      have "\<forall>j<k'. \<not> is_ok (net (i + 1 + j))"
        using k(4) k' by (metis Suc_less_eq add_Suc_right add_Suc_shift plus_1_eq_Suc add.commute)
      then show "\<exists>k<n. net (i + 1 + k) = Response r \<and> status_code r = 200 \<and> (\<forall>j<k. \<not> is_ok (net (i + 1 + j)))"
        using k k' by (intro exI [of _ k']) simp
    next
      assume "\<exists>k<n. net (i + 1 + k) = Response r \<and> status_code r = 200 \<and> (\<forall>j<k. \<not> is_ok (net (i + 1 + j)))"
      then obtain k where k: "k < n" "net (i + 1 + k) = Response r" "status_code r = 200"
        "\<forall>j<k. \<not> is_ok (net (i + 1 + j))" by blast
      have "\<forall>j<Suc k. \<not> is_ok (net (i + j))"
      proof (intro allI impI)
        fix j assume "j < Suc k"
        show "\<not> is_ok (net (i + j))"
        proof (cases j)
          case 0
          then show ?thesis using False by simp
        next
          case (Suc j')
          then have "j' < k" using \<open>j < Suc k\<close> by simp
          then show ?thesis using k(4) Suc by simp
        qed
      qed
      then show "\<exists>k<Suc n. net (i + k) = Response r \<and> status_code r = 200 \<and> (\<forall>j<k. \<not> is_ok (net (i + j)))"
        using k by (intro exI [of _ "Suc k"]) simp
    qed
    with step show ?thesis by simp
  qed
qed

lemmas fetch_eval = make_request_def effective_retries_def MAX_RETRIES_def attempts_made_def
  net_429_429_200_def is_ok_def Let_def

lemma request_loop_exhausted:
  "fst (request_loop net i n trace) = None \<Longrightarrow>
   length (filter (\<lambda>e. e = Get) (snd (request_loop net i n trace)))
     = length (filter (\<lambda>e. e = Get) trace) + n"
proof (induction n arbitrary: i trace)
  case 0
  then show ?case by simp
next
  case (Suc n)
  show ?case
    using Suc.prems
          Suc.IH [of "i + 1" "(if i > 0 then trace @ [Retry_delay] else trace) @ [Get]"]
          Suc.IH [of "i + 1" "(if i > 0 then trace @ [Retry_delay] else trace) @ [Get] @ [Blocked_delay]"]
    by (auto simp: Let_def split: attempt.splits if_splits)
qed

text \<open>
  Claim C7, for a budget of at least one attempt, and for the omitted argument, which is
  the budget 3. The function calls \<open>session.get\<close> at most \<open>n\<close> times, and exactly \<open>n\<close>
  times when it fails; it returns the response \<open>r\<close> exactly when \<open>r\<close> is the answer of
  the first attempt within the budget whose status is 200, whatever the earlier attempts
  were (403, 429, another status or a \<open>RequestException\<close>); it returns \<open>None\<close> exactly
  when no attempt within the budget has status 200. With the answers 429, 429, 200 and
  the budget 3 it returns the third response.
\<close>

theorem make_request_budget:
  assumes "1 \<le> n"
  shows "attempts_made (make_request net (Some n)) \<le> nat n
       \<and> (fst (make_request net (Some n)) = Some r \<longleftrightarrow>
            (\<exists>k<nat n. net k = Response r \<and> status_code r = 200 \<and> (\<forall>j<k. \<not> is_ok (net j))))
       \<and> (fst (make_request net (Some n)) = None \<longleftrightarrow> (\<forall>k<nat n. \<not> is_ok (net k)))
       \<and> (fst (make_request net (Some n)) = None \<longrightarrow>
            attempts_made (make_request net (Some n)) = nat n)
       \<and> make_request net None = make_request net (Some 3)
       \<and> fst (make_request (net_429_429_200 page) (Some 3))
            = Some \<lparr>status_code = 200, content = page\<rparr>"
proof -
  have eff: "effective_retries (Some n) = nat n"
    using assms by (simp add: effective_retries_def)
  have "attempts_made (make_request net (Some n)) \<le> nat n"
    using request_loop_attempts [of net 0 "nat n" "[]"]
    by (simp add: attempts_made_def make_request_def eff)
  moreover have "fst (make_request net (Some n)) = Some r \<longleftrightarrow>
       (\<exists>k<nat n. net k = Response r \<and> status_code r = 200 \<and> (\<forall>j<k. \<not> is_ok (net j)))"
    using request_loop_first [of net 0 "nat n" "[]" r] by (simp add: make_request_def eff)
  moreover have "fst (make_request net (Some n)) = None \<longleftrightarrow> (\<forall>k<nat n. \<not> is_ok (net k))"
    using request_loop_None [of net 0 "nat n" "[]"] by (simp add: make_request_def eff)
  moreover have "fst (make_request net (Some n)) = None \<longrightarrow>
       attempts_made (make_request net (Some n)) = nat n"
    using request_loop_exhausted [of net 0 "nat n" "[]"]
    by (simp add: attempts_made_def make_request_def eff)
  moreover have "make_request net None = make_request net (Some 3)"
    by (simp add: make_request_def effective_retries_def MAX_RETRIES_def)
  moreover have "fst (make_request (net_429_429_200 page) (Some 3))
       = Some \<lparr>status_code = 200, content = page\<rparr>"
    by (simp add: fetch_eval numeral_3_eq_3)
  ultimately show ?thesis by blast
qed

theorem make_request_budget_witness:
  "(1::int) \<le> 2
   \<and> attempts_made (make_request (net_429_429_200 ''<html>'') (Some 2)) = 2
   \<and> fst (make_request (net_429_429_200 ''<html>'') (Some 2)) = None
   \<and> \<not> is_ok (net_429_429_200 ''<html>'' 0) \<and> \<not> is_ok (net_429_429_200 ''<html>'' 1)"
proof -
  have h: "(1::int) \<le> 2" by simp
  show ?thesis
    using make_request_budget [OF h, of "net_429_429_200 ''<html>''" "\<lparr>status_code = 200, content = ''<html>''\<rparr>" "''<html>''"]
    by (simp add: fetch_eval numeral_2_eq_2)
qed

text \<open>
  Claim C7 as stated fails at the budget 0: the argument 0 is replaced by the configured
  3, and with the answers 429, 429, 200 the function makes three attempts and returns the
  third response.
\<close>

theorem make_request_zero_counterexample:
  "attempts_made (make_request (net_429_429_200 ''<html>'') (Some 0)) = 3
   \<and> \<not> (3 \<le> nat 0)
   \<and> fst (make_request (net_429_429_200 ''<html>'') (Some 0))
        = Some \<lparr>status_code = 200, content = ''<html>''\<rparr>"
  by (simp add: fetch_eval numeral_3_eq_3)

section \<open>Proofs: the record assembler\<close>

lemma floor_rat_numeral: "\<lfloor>(numeral a :: rat) / numeral b\<rfloor> = numeral a div numeral b"
  using floor_divide_of_int_eq [of "numeral a" "numeral b", where ?'a = rat] by simp

lemma floor_rat_neg_numeral: "\<lfloor>- ((numeral a :: rat) / numeral b)\<rfloor> = - numeral a div numeral b"
  using floor_divide_of_int_eq [of "- numeral a" "numeral b", where ?'a = rat] by simp

lemmas round_eval = round2_def round_half_even_def Let_def floor_rat_numeral floor_rat_neg_numeral

lemmas record_eval = get_product_data_def with_product_info_def base_product_data_def dict_get_def

lemma base_fields:
  "with_product_info info (base_product_data url scraped_at) ''title'' = Some (PStr [])"
  "with_product_info info (base_product_data url scraped_at) ''price'' = Some (PFloat 0)"
  "with_product_info info (base_product_data url scraped_at) ''availability'' = Some (PStr [])"
  "with_product_info info (base_product_data url scraped_at) ''rating'' = Some PNone"
  "with_product_info info (base_product_data url scraped_at) ''review_count'' = Some PNone"
  "with_product_info info (base_product_data url scraped_at) ''description'' = Some (PStr [])"
  "with_product_info info (base_product_data url scraped_at) ''success'' = Some (PBool False)"
  by (simp_all add: with_product_info_def base_product_data_def split: option.splits)

lemma success_iff:
  "(get_product_data url info scraped_at t0 t1 scraped ''success'' = Some (PBool False))
     = (\<forall>sd. scraped \<noteq> Returns sd)"
  by (cases scraped) (simp_all add: get_product_data_def Let_def base_fields)

lemma success_values:
  "get_product_data url info scraped_at t0 t1 scraped ''success'' =
     Some (PBool (\<exists>sd. scraped = Returns sd))"
  by (cases scraped) (simp_all add: get_product_data_def Let_def base_fields)

lemma failure_record:
  assumes "get_product_data url info scraped_at t0 t1 scraped ''success'' = Some (PBool False)"
  shows "\<exists>msg. get_product_data url info scraped_at t0 t1 scraped =
           (with_product_info info (base_product_data url scraped_at))
             (''error_message'' \<mapsto> PStr msg, ''scraping_duration'' \<mapsto> PFloat (round2 (t1 - t0)))"
proof (cases scraped)
  case (Returns sd)
  then show ?thesis using assms success_iff [of url info scraped_at t0 t1 scraped] by simp
qed (auto simp: get_product_data_def Let_def)

lemma scrape_products_acc: "scrape_products js acc = acc @ concat (map job_records js)"
  by (induction js arbitrary: acc) simp_all

lemma scrape_products_append:
  "scrape_products (js @ j # ks) [] = scrape_products js [] @ job_records j @ scrape_products ks []"
  by (simp add: scrape_products_acc)

lemma job_records_first:
  "job_lookup j = Scraper scraped \<Longrightarrow>
   \<exists>extra. job_records j =
     get_product_data (job_url j) (job_info j) (job_scraped_at j) (job_start j) (job_end j) scraped
       # extra"
  by (auto simp: job_records_def Let_def split: option.splits pyval.splits)

lemma job_records_failed:
  "job_lookup j = Scraper (Raises e) \<Longrightarrow>
   job_records j =
     [get_product_data (job_url j) (job_info j) (job_scraped_at j) (job_start j) (job_end j)
        (Raises e)]"
  by (simp add: job_records_def Let_def success_values)

text \<open>
  Claim C8. \<open>get_product_data\<close> returns a dictionary for every behaviour of
  \<open>scrape_product\<close>: a raised exception and a returned \<open>None\<close> give \<open>success = False\<close>,
  a returned dictionary gives \<open>success = True\<close>. When \<open>success\<close> is \<open>False\<close> the six
  extracted fields hold their defaults, and the record differs from the initial one
  (the defaults, the URL, the time of the scrape and the caller's product information)
  only in \<open>error_message\<close> and \<open>scraping_duration\<close>. In the batch loop the records of a
  URL stand between the records of the URLs before and after it, and a URL whose scraper
  raised contributes exactly its failure record from \<open>get_product_data\<close>.
\<close>

theorem get_product_data_failure_defaults:
  "(get_product_data url info scraped_at t0 t1 scraped ''success'' = Some (PBool False) \<longrightarrow>
      get_product_data url info scraped_at t0 t1 scraped ''title'' = Some (PStr [])
    \<and> get_product_data url info scraped_at t0 t1 scraped ''price'' = Some (PFloat 0)
    \<and> get_product_data url info scraped_at t0 t1 scraped ''availability'' = Some (PStr [])
    \<and> get_product_data url info scraped_at t0 t1 scraped ''rating'' = Some PNone
    \<and> get_product_data url info scraped_at t0 t1 scraped ''review_count'' = Some PNone
    \<and> get_product_data url info scraped_at t0 t1 scraped ''description'' = Some (PStr [])
    \<and> (\<forall>key. key \<noteq> ''error_message'' \<and> key \<noteq> ''scraping_duration'' \<longrightarrow>
           get_product_data url info scraped_at t0 t1 scraped key
             = with_product_info info (base_product_data url scraped_at) key))
   \<and> get_product_data url info scraped_at t0 t1 (Raises e) ''success'' = Some (PBool False)
   \<and> get_product_data url info scraped_at t0 t1 (Raises e) ''error_message'' = Some (PStr e)
   \<and> get_product_data url info scraped_at t0 t1 Returns_None ''success'' = Some (PBool False)
   \<and> get_product_data url info scraped_at t0 t1 (Returns sd) ''success'' = Some (PBool True)
   \<and> scrape_products (js @ j # ks) [] =
       scrape_products js [] @ job_records j @ scrape_products ks []
   \<and> (job_lookup j = Scraper (Raises e) \<longrightarrow>
        job_records j =
          [get_product_data (job_url j) (job_info j) (job_scraped_at j) (job_start j) (job_end j)
             (Raises e)])"
proof -
  have "get_product_data url info scraped_at t0 t1 scraped ''success'' = Some (PBool False) \<longrightarrow>
      get_product_data url info scraped_at t0 t1 scraped ''title'' = Some (PStr [])
    \<and> get_product_data url info scraped_at t0 t1 scraped ''price'' = Some (PFloat 0)
    \<and> get_product_data url info scraped_at t0 t1 scraped ''availability'' = Some (PStr [])
    \<and> get_product_data url info scraped_at t0 t1 scraped ''rating'' = Some PNone
    \<and> get_product_data url info scraped_at t0 t1 scraped ''review_count'' = Some PNone
    \<and> get_product_data url info scraped_at t0 t1 scraped ''description'' = Some (PStr [])
    \<and> (\<forall>key. key \<noteq> ''error_message'' \<and> key \<noteq> ''scraping_duration'' \<longrightarrow>
           get_product_data url info scraped_at t0 t1 scraped key
             = with_product_info info (base_product_data url scraped_at) key)"
  proof
    assume "get_product_data url info scraped_at t0 t1 scraped ''success'' = Some (PBool False)"
    from failure_record [OF this] obtain msg where
      d: "get_product_data url info scraped_at t0 t1 scraped =
           (with_product_info info (base_product_data url scraped_at))
             (''error_message'' \<mapsto> PStr msg, ''scraping_duration'' \<mapsto> PFloat (round2 (t1 - t0)))"
      by blast
    show "get_product_data url info scraped_at t0 t1 scraped ''title'' = Some (PStr [])
    \<and> get_product_data url info scraped_at t0 t1 scraped ''price'' = Some (PFloat 0)
    \<and> get_product_data url info scraped_at t0 t1 scraped ''availability'' = Some (PStr [])
    \<and> get_product_data url info scraped_at t0 t1 scraped ''rating'' = Some PNone
    \<and> get_product_data url info scraped_at t0 t1 scraped ''review_count'' = Some PNone
    \<and> get_product_data url info scraped_at t0 t1 scraped ''description'' = Some (PStr [])
    \<and> (\<forall>key. key \<noteq> ''error_message'' \<and> key \<noteq> ''scraping_duration'' \<longrightarrow>
           get_product_data url info scraped_at t0 t1 scraped key
             = with_product_info info (base_product_data url scraped_at) key)"
      unfolding d by (simp add: base_fields)
  qed
  moreover have "get_product_data url info scraped_at t0 t1 (Raises e) ''success'' = Some (PBool False)"
    by (simp add: success_values)
  moreover have "get_product_data url info scraped_at t0 t1 (Raises e) ''error_message'' = Some (PStr e)"
    by (simp add: get_product_data_def Let_def)
  moreover have "get_product_data url info scraped_at t0 t1 Returns_None ''success'' = Some (PBool False)"
    by (simp add: success_values)
  moreover have "get_product_data url info scraped_at t0 t1 (Returns sd) ''success'' = Some (PBool True)"
    by (simp add: success_values)
  moreover have "scrape_products (js @ j # ks) [] =
       scrape_products js [] @ job_records j @ scrape_products ks []"
    by (rule scrape_products_append)
  moreover have "job_lookup j = Scraper (Raises e) \<longrightarrow>
        job_records j =
          [get_product_data (job_url j) (job_info j) (job_scraped_at j) (job_start j) (job_end j)
             (Raises e)]"
    using job_records_failed [of j e] by blast
  ultimately show ?thesis by blast
qed


theorem get_product_data_failure_defaults_witness:
  "get_product_data ''https://x.test/p'' None ''2024-01-01 00:00:00'' 0 1 (Raises ''boom'') ''success''
     = Some (PBool False)
   \<and> get_product_data ''https://x.test/p'' None ''2024-01-01 00:00:00'' 0 1 (Raises ''boom'') ''title''
     = Some (PStr [])
   \<and> get_product_data ''https://x.test/p'' None ''2024-01-01 00:00:00'' 0 1 (Raises ''boom'') ''price''
     = Some (PFloat 0)
   \<and> get_product_data ''https://x.test/p'' None ''2024-01-01 00:00:00'' 0 1 (Raises ''boom'') ''url''
     = Some (PStr ''https://x.test/p'')"
  using get_product_data_failure_defaults
          [of "''https://x.test/p''" None "''2024-01-01 00:00:00''" 0 1 "Raises ''boom''" "''boom''"]
  by (simp add: with_product_info_def base_product_data_def)

section \<open>Proofs: the Fiverr scraper\<close>

lemma fiverr_returns:
  "fiverr_scrape_product net parse_html reviews = Returns d \<Longrightarrow>
   d ''availability'' = Some (PStr ''Disponible'')"
  by (auto simp: fiverr_scrape_product_def Let_def split: option.splits)

lemma fiverr_returns_iff:
  "(\<exists>d. fiverr_scrape_product net parse_html reviews = Returns d) =
   (\<exists>r page. fst (make_request net None) = Some r \<and> parse_html (content r) = Some page)"
  by (auto simp: fiverr_scrape_product_def Let_def split: option.splits)

lemma fiverr_not_None: "fiverr_scrape_product net parse_html reviews \<noteq> Returns_None"
  by (auto simp: fiverr_scrape_product_def Let_def split: option.splits)

text \<open>
  Claim C10. Whenever \<open>FiverrScraper.scrape_product\<close> returns, that is whenever the page
  was fetched and parsed, the availability of the dictionary it returns is the constant
  \<open>Disponible\<close>, for every page, every parser and every result of the review helper; so
  is the availability of every successful record that \<open>get_product_data\<close> builds from it.
\<close>

theorem fiverr_availability_constant:
  "(fiverr_scrape_product net parse_html reviews = Returns d \<longrightarrow>
      d ''availability'' = Some (PStr ''Disponible''))
   \<and> ((\<exists>d. fiverr_scrape_product net parse_html reviews = Returns d) =
       (\<exists>r page. fst (make_request net None) = Some r \<and> parse_html (content r) = Some page))
   \<and> (get_product_data url info scraped_at t0 t1 (fiverr_scrape_product net parse_html reviews)
         ''success'' = Some (PBool True) \<longrightarrow>
       get_product_data url info scraped_at t0 t1 (fiverr_scrape_product net parse_html reviews)
         ''availability'' = Some (PStr ''Disponible''))"
proof -
  have "get_product_data url info scraped_at t0 t1 (fiverr_scrape_product net parse_html reviews)
         ''success'' = Some (PBool True) \<longrightarrow>
       get_product_data url info scraped_at t0 t1 (fiverr_scrape_product net parse_html reviews)
         ''availability'' = Some (PStr ''Disponible'')"
  proof (cases "fiverr_scrape_product net parse_html reviews")
    case (Raises e)
    then show ?thesis by (simp add: success_values)
  next
    case (Returns d)
    from fiverr_returns [OF this] show ?thesis
      using Returns by (simp add: get_product_data_def Let_def map_add_def)
  next
    case Returns_None
    then show ?thesis by (simp add: success_values)
  qed
  then show ?thesis
    using fiverr_returns [of net parse_html reviews d] fiverr_returns_iff [of net parse_html reviews]
    by blast
qed

theorem fiverr_availability_constant_witness:
  "(\<exists>d. fiverr_scrape_product (net_429_429_200 ''<html>'')
           (\<lambda>c. Some (page_with_text ''h1'' ''Out of stock - sold out''))
           (\<lambda>p. \<lparr>rating = None, review_count = None\<rparr>) = Returns d
        \<and> d ''availability'' = Some (PStr ''Disponible'')
        \<and> d ''title'' = Some (PStr ''Out of stock - sold out''))"
proof -
  obtain d where d: "fiverr_scrape_product (net_429_429_200 ''<html>'')
           (\<lambda>c. Some (page_with_text ''h1'' ''Out of stock - sold out''))
           (\<lambda>p. \<lparr>rating = None, review_count = None\<rparr>) = Returns d"
    and t: "d ''title'' = Some (PStr ''Out of stock - sold out'')"
    by (simp add: fiverr_scrape_product_def fetch_eval numeral_3_eq_3 select_one_def
          page_with_text_def)
  from fiverr_availability_constant
         [of "net_429_429_200 ''<html>''" "\<lambda>c. Some (page_with_text ''h1'' ''Out of stock - sold out'')"
             "\<lambda>p. \<lparr>rating = None, review_count = None\<rparr>" d]
       d t
  show ?thesis by blast
qed

section \<open>Proofs: the diff engine\<close>

lemma filter_url_member:
  "x \<in> set (filter (\<lambda>r. p_url r = u) frame) \<Longrightarrow> x \<in> set frame \<and> p_url x = u"
  by simp

lemma filter_url_nonempty:
  "u \<in> set (urls_of frame) \<Longrightarrow> filter (\<lambda>r. p_url r = u) frame \<noteq> []"
  by (auto simp: urls_of_def filter_empty_conv)

lemma filter_url_empty:
  "u \<notin> set (urls_of frame) \<Longrightarrow> filter (\<lambda>r. p_url r = u) frame = []"
  by (auto simp: urls_of_def filter_empty_conv)

lemma first_row_Some:
  assumes "u \<in> set (urls_of frame)"
  shows "\<exists>r. first_row frame u = Some r \<and> r \<in> set frame \<and> p_url r = u"
proof -
  obtain r rs where f: "filter (\<lambda>r. p_url r = u) frame = r # rs"
    using filter_url_nonempty [OF assms] by (cases "filter (\<lambda>r. p_url r = u) frame") auto
  have "r \<in> set (filter (\<lambda>r. p_url r = u) frame)" unfolding f by simp
  from filter_url_member [OF this] have "r \<in> set frame \<and> p_url r = u" .
  moreover have "first_row frame u = Some r" by (simp add: first_row_def f)
  ultimately show ?thesis by blast
qed

lemma last_row_Some:
  assumes "u \<in> set (urls_of frame)"
  shows "\<exists>r. last_row frame u = Some r \<and> r \<in> set frame \<and> p_url r = u"
proof -
  obtain r rs where f: "filter (\<lambda>r. p_url r = u) frame = r # rs"
    using filter_url_nonempty [OF assms] by (cases "filter (\<lambda>r. p_url r = u) frame") auto
  have "last (r # rs) \<in> set (r # rs)" by (rule last_in_set) simp
  then have "last (r # rs) \<in> set (filter (\<lambda>r. p_url r = u) frame)" unfolding f .
  from filter_url_member [OF this] have "last (r # rs) \<in> set frame \<and> p_url (last (r # rs)) = u" .
  moreover have "last_row frame u = Some (last (r # rs))" by (simp add: last_row_def f)
  ultimately show ?thesis by blast
qed

lemma first_row_None: "u \<notin> set (urls_of frame) \<Longrightarrow> first_row frame u = None"
  by (simp add: first_row_def filter_url_empty)

lemma last_row_None: "u \<notin> set (urls_of frame) \<Longrightarrow> last_row frame u = None"
  by (simp add: last_row_def filter_url_empty)

lemma compare_common_closed:
  assumes "set us \<subseteq> set (urls_of cur)" "set us \<subseteq> set (urls_of hist)"
  shows "compare_common ops th cur hist us rep =
     Inr (rep\<lparr>price_changes := price_changes rep @ concat (map (price_changes_for ops th cur hist) us),
              availability_changes := availability_changes rep
                 @ concat (map (availability_changes_for cur hist) us)\<rparr>)"
  using assms
proof (induction us arbitrary: rep)
  case Nil
  then show ?case by simp
next
  case (Cons u us)
  obtain c where c: "first_row cur u = Some c" using first_row_Some [of u cur] Cons.prems by auto
  obtain h where h: "last_row hist u = Some h" using last_row_Some [of u hist] Cons.prems by auto
  show ?case
    using Cons.prems
    by (simp add: c h Cons.IH price_changes_for_def availability_changes_for_def)
qed

lemma add_new_products_closed:
  assumes "set us \<subseteq> set (urls_of cur)"
  shows "add_new_products cur us rep =
     Inr (rep\<lparr>new_products := new_products rep @ concat (map (new_product_for cur) us)\<rparr>)"
  using assms
proof (induction us arbitrary: rep)
  case Nil
  then show ?case by simp
next
  case (Cons u us)
  obtain c where c: "first_row cur u = Some c" using first_row_Some [of u cur] Cons.prems by auto
  show ?case using Cons.prems by (simp add: c Cons.IH new_product_for_def)
qed

lemma add_removed_products_closed:
  assumes "set us \<subseteq> set (urls_of hist)"
  shows "add_removed_products hist us rep =
     Inr (rep\<lparr>removed_products := removed_products rep @ concat (map (removed_product_for hist) us)\<rparr>)"
  using assms
proof (induction us arbitrary: rep)
  case Nil
  then show ?case by simp
next
  case (Cons u us)
  obtain h where h: "last_row hist u = Some h" using last_row_Some [of u hist] Cons.prems by auto
  show ?case using Cons.prems by (simp add: h Cons.IH removed_product_for_def)
qed

lemma iteration_set: "is_iteration iter \<Longrightarrow> set (iter xs) = set xs"
  unfolding is_iteration_def by (metis mset_eq_setD)

lemma iteration_distinct: "is_iteration iter \<Longrightarrow> distinct (iter xs) = distinct xs"
  unfolding is_iteration_def by (metis mset_eq_imp_distinct_iff)

lemma set_common_urls: "set (common_urls cur hist) = set (urls_of cur) \<inter> set (urls_of hist)"
  by (auto simp: common_urls_def)

lemma set_new_urls: "set (new_urls cur hist) = set (urls_of cur) - set (urls_of hist)"
  by (auto simp: new_urls_def)

lemma set_removed_urls: "set (removed_urls cur hist) = set (urls_of hist) - set (urls_of cur)"
  by (auto simp: removed_urls_def)

lemma report_closed:
  assumes "is_iteration iter" "cur \<noteq> []" "hist \<noteq> []"
  shows "generate_comparison_report ops th iter now cur hist
     = Inr (Some (report_of ops th iter now cur hist))"
proof -
  have 1: "set (iter (common_urls cur hist)) \<subseteq> set (urls_of cur)"
          "set (iter (common_urls cur hist)) \<subseteq> set (urls_of hist)"
    using assms(1) by (auto simp: iteration_set set_common_urls)
  have 2: "set (iter (new_urls cur hist)) \<subseteq> set (urls_of cur)"
    using assms(1) by (auto simp: iteration_set set_new_urls)
  have 3: "set (iter (removed_urls cur hist)) \<subseteq> set (urls_of hist)"
    using assms(1) by (auto simp: iteration_set set_removed_urls)
  show ?thesis
    using assms(2,3)
    by (simp add: generate_comparison_report_def Let_def compare_common_closed [OF 1]
          add_new_products_closed [OF 2] add_removed_products_closed [OF 3] report_of_def)
qed

lemma keyed_concat_filter:
  assumes "\<And>u x. x \<in> set (f u) \<Longrightarrow> key x = u" "distinct us" "u \<in> set us"
  shows "filter (\<lambda>x. key x = u) (concat (map f us)) = f u"
  using assms(2,3)
proof (induction us)
  case Nil
  then show ?case by simp
next
  case (Cons v us)
  have same: "filter (\<lambda>x. key x = w) (f w) = f w" for w
    using assms(1) by (simp add: filter_id_conv)
  have other: "w \<noteq> u \<Longrightarrow> filter (\<lambda>x. key x = u) (f w) = []" for w
    using assms(1) by (auto simp: filter_empty_conv)
  have absent: "u \<notin> set ws \<Longrightarrow> filter (\<lambda>x. key x = u) (concat (map f ws)) = []" for ws
    using assms(1) by (auto simp: filter_empty_conv)
  show ?case
  proof (cases "v = u")
    case True
    then have "u \<notin> set us" using Cons.prems by simp
    then show ?thesis using True same absent by simp
  next
    case False
    then have "u \<in> set us" using Cons.prems by simp
    then show ?thesis using False other Cons.IH Cons.prems by simp
  qed
qed

lemma keyed_concat_distinct:
  assumes "\<And>u x. x \<in> set (f u) \<Longrightarrow> key x = u" "\<And>u. length (f u) \<le> 1" "distinct us"
  shows "distinct (map key (concat (map f us)))"
  using assms(3)
proof (induction us)
  case Nil
  then show ?case by simp
next
  case (Cons v us)
  have d1: "distinct (map key (f v))"
    using assms(2) [of v] by (cases "f v") (auto simp: le_Suc_eq)
  have "set (map key (f v)) \<subseteq> {v}" using assms(1) by auto
  moreover have "set (map key (concat (map f us))) \<subseteq> set us" using assms(1) by auto
  ultimately have "set (map key (f v)) \<inter> set (map key (concat (map f us))) = {}"
    using Cons.prems by fastforce
  then show ?case using d1 Cons by simp
qed

lemma keyed_concat_keys:
  assumes "\<And>u x. x \<in> set (f u) \<Longrightarrow> key x = u"
  shows "set (map key (concat (map f us))) \<subseteq> set us"
  using assms by auto

lemma price_changes_for_key: "x \<in> set (price_changes_for ops th cur hist u) \<Longrightarrow> pc_url x = u"
  by (auto simp: price_changes_for_def price_change_of_def Let_def
           split: option.splits val.splits if_splits)

lemma price_changes_for_length: "length (price_changes_for ops th cur hist u) \<le> 1"
  by (auto simp: price_changes_for_def price_change_of_def Let_def
           split: option.splits val.splits if_splits)

lemma availability_changes_for_key: "x \<in> set (availability_changes_for cur hist u) \<Longrightarrow> ac_url x = u"
  by (auto simp: availability_changes_for_def availability_change_of_def Let_def
           split: option.splits if_splits)

lemma availability_changes_for_length: "length (availability_changes_for cur hist u) \<le> 1"
  by (auto simp: availability_changes_for_def availability_change_of_def Let_def
           split: option.splits if_splits)

lemma new_product_for_key: "x \<in> set (new_product_for cur u) \<Longrightarrow> np_url x = u"
  by (auto simp: new_product_for_def split: option.splits)

lemma new_product_for_length: "length (new_product_for cur u) \<le> 1"
  by (auto simp: new_product_for_def split: option.splits)

lemma removed_product_for_key: "x \<in> set (removed_product_for hist u) \<Longrightarrow> rp_url x = u"
  by (auto simp: removed_product_for_def split: option.splits)

lemma removed_product_for_length: "length (removed_product_for hist u) \<le> 1"
  by (auto simp: removed_product_for_def split: option.splits)

lemma new_product_urls:
  "set us \<subseteq> set (urls_of cur) \<Longrightarrow> map np_url (concat (map (new_product_for cur) us)) = us"
proof (induction us)
  case Nil
  then show ?case by simp
next
  case (Cons u us)
  obtain c where "first_row cur u = Some c" using first_row_Some [of u cur] Cons.prems by auto
  then show ?case using Cons by (simp add: new_product_for_def)
qed

lemma removed_product_urls:
  "set us \<subseteq> set (urls_of hist) \<Longrightarrow> map rp_url (concat (map (removed_product_for hist) us)) = us"
proof (induction us)
  case Nil
  then show ?case by simp
next
  case (Cons u us)
  obtain h where "last_row hist u = Some h" using last_row_Some [of u hist] Cons.prems by auto
  then show ?case using Cons by (simp add: removed_product_for_def)
qed

lemma distinct_common_urls: "distinct (common_urls cur hist)"
  by (simp add: common_urls_def)

lemma distinct_new_urls: "distinct (new_urls cur hist)"
  by (simp add: new_urls_def)

lemma distinct_removed_urls: "distinct (removed_urls cur hist)"
  by (simp add: removed_urls_def)

lemma report_of_fields:
  "price_changes (report_of ops th iter now cur hist)
     = concat (map (price_changes_for ops th cur hist) (iter (common_urls cur hist)))"
  "availability_changes (report_of ops th iter now cur hist)
     = concat (map (availability_changes_for cur hist) (iter (common_urls cur hist)))"
  "new_products (report_of ops th iter now cur hist)
     = concat (map (new_product_for cur) (iter (new_urls cur hist)))"
  "removed_products (report_of ops th iter now cur hist)
     = concat (map (removed_product_for hist) (iter (removed_urls cur hist)))"
  by (simp_all add: report_of_def with_summary_def)

lemma report_of_summary:
  "report_summary (report_of ops th iter now cur hist) =
     Some \<lparr>total_price_changes = length (price_changes (report_of ops th iter now cur hist)),
           total_availability_changes = length (availability_changes (report_of ops th iter now cur hist)),
           new_products_count = length (new_products (report_of ops th iter now cur hist)),
           removed_products_count = length (removed_products (report_of ops th iter now cur hist)),
           generated_at = now\<rparr>"
  by (simp add: report_of_def with_summary_def)

lemma first_row_decomp:
  assumes "frame = pre @ c # post" "p_url c = u" "u \<notin> p_url ` set pre"
  shows "first_row frame u = Some c"
proof -
  have "filter (\<lambda>r. p_url r = u) pre = []"
    using assms(3) by (auto simp: filter_empty_conv)
  then show ?thesis by (simp add: first_row_def assms(1,2))
qed

lemma last_row_decomp:
  assumes "frame = pre @ h # post" "p_url h = u" "u \<notin> p_url ` set post"
  shows "last_row frame u = Some h"
proof -
  have "filter (\<lambda>r. p_url r = u) post = []"
    using assms(3) by (auto simp: filter_empty_conv)
  then have f: "filter (\<lambda>r. p_url r = u) frame = filter (\<lambda>r. p_url r = u) pre @ [h]"
    by (simp add: assms(1,2))
  show ?thesis
    unfolding last_row_def f by (cases "filter (\<lambda>r. p_url r = u) pre") simp_all
qed

lemma first_row_split:
  assumes "u \<in> set (urls_of frame)"
  shows "\<exists>pre c post. frame = pre @ c # post \<and> p_url c = u \<and> u \<notin> p_url ` set pre
           \<and> first_row frame u = Some c"
proof -
  have "\<exists>r \<in> set frame. p_url r = u" using assms by (auto simp: urls_of_def)
  from split_list_first_prop [OF this] obtain pre c post where
    d: "frame = pre @ c # post" "p_url c = u" "\<forall>y \<in> set pre. p_url y \<noteq> u" by blast
  have n: "u \<notin> p_url ` set pre" using d(3) by auto
  from first_row_decomp [OF d(1,2) n] d(1,2) n show ?thesis by blast
qed

lemma last_row_split:
  assumes "u \<in> set (urls_of frame)"
  shows "\<exists>pre h post. frame = pre @ h # post \<and> p_url h = u \<and> u \<notin> p_url ` set post
           \<and> last_row frame u = Some h"
proof -
  have "\<exists>r \<in> set frame. p_url r = u" using assms by (auto simp: urls_of_def)
  from split_list_last_prop [OF this] obtain pre h post where
    d: "frame = pre @ h # post" "p_url h = u" "\<forall>y \<in> set post. p_url y \<noteq> u" by blast
  have n: "u \<notin> p_url ` set post" using d(3) by auto
  from last_row_decomp [OF d(1,2) n] d(1,2) n show ?thesis by blast
qed

lemma row_get_eq:
  "row_get col d frame r =
     (if \<exists>x \<in> set frame. col x \<noteq> Absent
      then (case col r of Cell v \<Rightarrow> Value v | _ \<Rightarrow> Nan) else Value d)"
  by (simp add: row_get_def list_ex_iff)

lemma removed_product_for_decomp:
  assumes "u \<in> set (urls_of hist)" "rp \<in> set (removed_product_for hist u)"
  shows "\<exists>pre h post. hist = pre @ h # post \<and> p_url h = rp_url rp
           \<and> rp_url rp \<notin> p_url ` set post
           \<and> last_price rp = (if \<exists>r \<in> set hist. p_price r \<noteq> Absent
                then (case p_price h of Cell v \<Rightarrow> Value v | _ \<Rightarrow> Nan) else Value 0)"
proof -
  from last_row_split [OF assms(1)] obtain pre h post where
    d: "hist = pre @ h # post" "p_url h = u" "u \<notin> p_url ` set post"
      "last_row hist u = Some h" by blast
  have "rp = \<lparr>rp_url = u, rp_title = row_get p_title [] hist h,
               last_price = row_get p_price 0 hist h\<rparr>"
    using assms(2) by (simp add: removed_product_for_def d(4))
  then have "rp_url rp = u" "last_price rp = row_get p_price 0 hist h" by simp_all
  then show ?thesis using d(1,2,3) unfolding row_get_eq by blast
qed

lemma new_product_for_decomp:
  assumes "u \<in> set (urls_of cur)" "np \<in> set (new_product_for cur u)"
  shows "\<exists>pre c post. cur = pre @ c # post \<and> p_url c = np_url np
           \<and> np_url np \<notin> p_url ` set pre
           \<and> np_price np = (if \<exists>r \<in> set cur. p_price r \<noteq> Absent
                then (case p_price c of Cell v \<Rightarrow> Value v | _ \<Rightarrow> Nan) else Value 0)"
proof -
  from first_row_split [OF assms(1)] obtain pre c post where
    d: "cur = pre @ c # post" "p_url c = u" "u \<notin> p_url ` set pre"
      "first_row cur u = Some c" by blast
  have "np = \<lparr>np_url = u, np_title = row_get p_title [] cur c,
               np_price = row_get p_price 0 cur c\<rparr>"
    using assms(2) by (simp add: new_product_for_def d(4))
  then have "np_url np = u" "np_price np = row_get p_price 0 cur c" by simp_all
  then show ?thesis using d(1,2,3) unfolding row_get_eq by blast
qed

text \<open>
  Claim C5. When a snapshot is empty the result is the empty dictionary. Otherwise the
  report exists; the URLs of \<open>new_products\<close> are exactly the URLs of the current snapshot
  that the historical one lacks, the URLs of \<open>removed_products\<close> exactly those of the
  historical snapshot that the current one lacks, so a URL of both snapshots is in
  neither list; the price and availability changes are about URLs of both snapshots;
  every removed product carries the price of the last row of the historical snapshot
  with its URL (the value of the cell; \<open>NaN\<close> when the row has no value and another row
  has one; 0 when no row has the key), every new product the price of the first row of
  the current snapshot with its URL; no list has a URL twice.
\<close>

theorem diff_partition:
  assumes it: "is_iteration iter"
  shows "(current_data = [] \<or> historical_data = [] \<longrightarrow>
            generate_comparison_report ops threshold iter now current_data historical_data
              = Inr None)
    \<and> (current_data \<noteq> [] \<and> historical_data \<noteq> [] \<longrightarrow>
         (\<exists>results.
            generate_comparison_report ops threshold iter now current_data historical_data
              = Inr (Some results)
          \<and> set (map np_url (new_products results))
              = p_url ` set current_data - p_url ` set historical_data
          \<and> set (map rp_url (removed_products results))
              = p_url ` set historical_data - p_url ` set current_data
          \<and> set (map pc_url (price_changes results))
              \<subseteq> p_url ` set current_data \<inter> p_url ` set historical_data
          \<and> set (map ac_url (availability_changes results))
              \<subseteq> p_url ` set current_data \<inter> p_url ` set historical_data
          \<and> (\<forall>rp \<in> set (removed_products results).
                \<exists>pre h post. historical_data = pre @ h # post \<and> p_url h = rp_url rp
                  \<and> rp_url rp \<notin> p_url ` set post
                  \<and> last_price rp =
                      (if \<exists>r \<in> set historical_data. p_price r \<noteq> Absent
                       then (case p_price h of Cell v \<Rightarrow> Value v | _ \<Rightarrow> Nan)
                       else Value 0))
          \<and> (\<forall>np \<in> set (new_products results).
                \<exists>pre c post. current_data = pre @ c # post \<and> p_url c = np_url np
                  \<and> np_url np \<notin> p_url ` set pre
                  \<and> np_price np =
                      (if \<exists>r \<in> set current_data. p_price r \<noteq> Absent
                       then (case p_price c of Cell v \<Rightarrow> Value v | _ \<Rightarrow> Nan)
                       else Value 0))
          \<and> distinct (map pc_url (price_changes results))
          \<and> distinct (map ac_url (availability_changes results))
          \<and> distinct (map np_url (new_products results))
          \<and> distinct (map rp_url (removed_products results))))"
proof -
  have e: "current_data = [] \<or> historical_data = [] \<longrightarrow>
            generate_comparison_report ops threshold iter now current_data historical_data
              = Inr None"
    by (simp add: generate_comparison_report_def)
  have n: "current_data \<noteq> [] \<and> historical_data \<noteq> [] \<longrightarrow>
         (\<exists>results.
            generate_comparison_report ops threshold iter now current_data historical_data
              = Inr (Some results)
          \<and> set (map np_url (new_products results))
              = p_url ` set current_data - p_url ` set historical_data
          \<and> set (map rp_url (removed_products results))
              = p_url ` set historical_data - p_url ` set current_data
          \<and> set (map pc_url (price_changes results))
              \<subseteq> p_url ` set current_data \<inter> p_url ` set historical_data
          \<and> set (map ac_url (availability_changes results))
              \<subseteq> p_url ` set current_data \<inter> p_url ` set historical_data
          \<and> (\<forall>rp \<in> set (removed_products results).
                \<exists>pre h post. historical_data = pre @ h # post \<and> p_url h = rp_url rp
                  \<and> rp_url rp \<notin> p_url ` set post
                  \<and> last_price rp =
                      (if \<exists>r \<in> set historical_data. p_price r \<noteq> Absent
                       then (case p_price h of Cell v \<Rightarrow> Value v | _ \<Rightarrow> Nan)
                       else Value 0))
          \<and> (\<forall>np \<in> set (new_products results).
                \<exists>pre c post. current_data = pre @ c # post \<and> p_url c = np_url np
                  \<and> np_url np \<notin> p_url ` set pre
                  \<and> np_price np =
                      (if \<exists>r \<in> set current_data. p_price r \<noteq> Absent
                       then (case p_price c of Cell v \<Rightarrow> Value v | _ \<Rightarrow> Nan)
                       else Value 0))
          \<and> distinct (map pc_url (price_changes results))
          \<and> distinct (map ac_url (availability_changes results))
          \<and> distinct (map np_url (new_products results))
          \<and> distinct (map rp_url (removed_products results)))"
  proof
    assume ne': "current_data \<noteq> [] \<and> historical_data \<noteq> []"
    then have ne: "current_data \<noteq> []" "historical_data \<noteq> []" by simp_all
    let ?r = "report_of ops threshold iter now current_data historical_data"
    have uc: "set (urls_of current_data) = p_url ` set current_data"
      and uh: "set (urls_of historical_data) = p_url ` set historical_data"
      by (simp_all add: urls_of_def)
    have r: "generate_comparison_report ops threshold iter now current_data historical_data
               = Inr (Some ?r)"
      by (rule report_closed [OF it ne])
    have subn: "set (iter (new_urls current_data historical_data)) \<subseteq> set (urls_of current_data)"
      using it by (auto simp: iteration_set set_new_urls)
    have subr: "set (iter (removed_urls current_data historical_data))
                  \<subseteq> set (urls_of historical_data)"
      using it by (auto simp: iteration_set set_removed_urls)
    have n: "map np_url (new_products ?r) = iter (new_urls current_data historical_data)"
      by (simp add: report_of_fields new_product_urls [OF subn])
    have rm: "map rp_url (removed_products ?r) = iter (removed_urls current_data historical_data)"
      by (simp add: report_of_fields removed_product_urls [OF subr])
    have 1: "set (map np_url (new_products ?r))
               = p_url ` set current_data - p_url ` set historical_data"
      unfolding n uc [symmetric] uh [symmetric] using it by (simp add: iteration_set set_new_urls)
    have 2: "set (map rp_url (removed_products ?r))
               = p_url ` set historical_data - p_url ` set current_data"
      unfolding rm uc [symmetric] uh [symmetric]
      using it by (simp add: iteration_set set_removed_urls)
    have 3: "set (map pc_url (price_changes ?r))
               \<subseteq> p_url ` set current_data \<inter> p_url ` set historical_data"
      unfolding uc [symmetric] uh [symmetric]
      using keyed_concat_keys [of "price_changes_for ops threshold current_data historical_data"
              pc_url "iter (common_urls current_data historical_data)"] price_changes_for_key it
      by (simp add: report_of_fields iteration_set set_common_urls)
    have 4: "set (map ac_url (availability_changes ?r))
               \<subseteq> p_url ` set current_data \<inter> p_url ` set historical_data"
      unfolding uc [symmetric] uh [symmetric]
      using keyed_concat_keys [of "availability_changes_for current_data historical_data" ac_url
              "iter (common_urls current_data historical_data)"] availability_changes_for_key it
      by (simp add: report_of_fields iteration_set set_common_urls)
    have 5: "\<forall>rp \<in> set (removed_products ?r).
                \<exists>pre h post. historical_data = pre @ h # post \<and> p_url h = rp_url rp
                  \<and> rp_url rp \<notin> p_url ` set post
                  \<and> last_price rp =
                      (if \<exists>r \<in> set historical_data. p_price r \<noteq> Absent
                       then (case p_price h of Cell v \<Rightarrow> Value v | _ \<Rightarrow> Nan)
                       else Value 0)"
    proof
      fix rp assume "rp \<in> set (removed_products ?r)"
      then obtain u where u: "u \<in> set (iter (removed_urls current_data historical_data))"
        "rp \<in> set (removed_product_for historical_data u)"
        by (auto simp: report_of_fields)
      have "u \<in> set (urls_of historical_data)" using u(1) subr by blast
      from removed_product_for_decomp [OF this u(2)]
      show "\<exists>pre h post. historical_data = pre @ h # post \<and> p_url h = rp_url rp
                  \<and> rp_url rp \<notin> p_url ` set post
                  \<and> last_price rp =
                      (if \<exists>r \<in> set historical_data. p_price r \<noteq> Absent
                       then (case p_price h of Cell v \<Rightarrow> Value v | _ \<Rightarrow> Nan)
                       else Value 0)" .
    qed
    have 6: "\<forall>np \<in> set (new_products ?r).
                \<exists>pre c post. current_data = pre @ c # post \<and> p_url c = np_url np
                  \<and> np_url np \<notin> p_url ` set pre
                  \<and> np_price np =
                      (if \<exists>r \<in> set current_data. p_price r \<noteq> Absent
                       then (case p_price c of Cell v \<Rightarrow> Value v | _ \<Rightarrow> Nan)
                       else Value 0)"
    proof
      fix np assume "np \<in> set (new_products ?r)"
      then obtain u where u: "u \<in> set (iter (new_urls current_data historical_data))"
        "np \<in> set (new_product_for current_data u)"
        by (auto simp: report_of_fields)
      have "u \<in> set (urls_of current_data)" using u(1) subn by blast
      from new_product_for_decomp [OF this u(2)]
      show "\<exists>pre c post. current_data = pre @ c # post \<and> p_url c = np_url np
                  \<and> np_url np \<notin> p_url ` set pre
                  \<and> np_price np =
                      (if \<exists>r \<in> set current_data. p_price r \<noteq> Absent
                       then (case p_price c of Cell v \<Rightarrow> Value v | _ \<Rightarrow> Nan)
                       else Value 0)" .
    qed
    have 7: "distinct (map pc_url (price_changes ?r))"
      unfolding report_of_fields
      by (rule keyed_concat_distinct [OF price_changes_for_key price_changes_for_length])
         (simp_all add: iteration_distinct [OF it] distinct_common_urls)
    have 8: "distinct (map ac_url (availability_changes ?r))"
      unfolding report_of_fields
      by (rule keyed_concat_distinct [OF availability_changes_for_key availability_changes_for_length])
         (simp_all add: iteration_distinct [OF it] distinct_common_urls)
    have 9: "distinct (map np_url (new_products ?r))"
      unfolding n by (simp add: iteration_distinct [OF it] distinct_new_urls)
    have 10: "distinct (map rp_url (removed_products ?r))"
      unfolding rm by (simp add: iteration_distinct [OF it] distinct_removed_urls)
    show "\<exists>results.
            generate_comparison_report ops threshold iter now current_data historical_data
              = Inr (Some results)
          \<and> set (map np_url (new_products results))
              = p_url ` set current_data - p_url ` set historical_data
          \<and> set (map rp_url (removed_products results))
              = p_url ` set historical_data - p_url ` set current_data
          \<and> set (map pc_url (price_changes results))
              \<subseteq> p_url ` set current_data \<inter> p_url ` set historical_data
          \<and> set (map ac_url (availability_changes results))
              \<subseteq> p_url ` set current_data \<inter> p_url ` set historical_data
          \<and> (\<forall>rp \<in> set (removed_products results).
                \<exists>pre h post. historical_data = pre @ h # post \<and> p_url h = rp_url rp
                  \<and> rp_url rp \<notin> p_url ` set post
                  \<and> last_price rp =
                      (if \<exists>r \<in> set historical_data. p_price r \<noteq> Absent
                       then (case p_price h of Cell v \<Rightarrow> Value v | _ \<Rightarrow> Nan)
                       else Value 0))
          \<and> (\<forall>np \<in> set (new_products results).
                \<exists>pre c post. current_data = pre @ c # post \<and> p_url c = np_url np
                  \<and> np_url np \<notin> p_url ` set pre
                  \<and> np_price np =
                      (if \<exists>r \<in> set current_data. p_price r \<noteq> Absent
                       then (case p_price c of Cell v \<Rightarrow> Value v | _ \<Rightarrow> Nan)
                       else Value 0))
          \<and> distinct (map pc_url (price_changes results))
          \<and> distinct (map ac_url (availability_changes results))
          \<and> distinct (map np_url (new_products results))
          \<and> distinct (map rp_url (removed_products results))"
      using r 1 2 3 4 5 6 7 8 9 10 by (intro exI [of _ ?r] conjI)
  qed
  show ?thesis using e n by (rule conjI)
qed

lemma price_change_of_iff:
  "(price_change_of ops th cur hist u c h \<noteq> []) =
   (\<exists>cp hp. row_get p_price 0 cur c = Value cp \<and> row_get p_price 0 hist h = Value hp
         \<and> 0 < cp \<and> 0 < hp
         \<and> th \<le> \<bar>f_mul ops (f_div ops (f_sub ops cp hp) hp) 100\<bar>)"
  by (auto simp: price_change_of_def Let_def split: val.splits)

lemma price_change_of_record:
  "pc \<in> set (price_change_of ops th cur hist u c h) \<Longrightarrow>
     pc_url pc = u \<and> pc_title pc = row_get p_title [] cur c
   \<and> row_get p_price 0 cur c = Value (new_price pc) \<and> 0 < new_price pc
   \<and> row_get p_price 0 hist h = Value (old_price pc) \<and> 0 < old_price pc
   \<and> change_percent pc =
       f_round2 ops (f_mul ops (f_div ops (f_sub ops (new_price pc) (old_price pc))
                                  (old_price pc)) 100)"
  by (auto simp: price_change_of_def Let_def split: val.splits if_splits)

lemma positive_price_cell:
  "r \<in> set frame \<Longrightarrow> 0 < v \<Longrightarrow> (row_get p_price 0 frame r = Value v) = (p_price r = Cell v)"
  by (auto simp: row_get_def list_ex_iff split: cell.splits)

lemma price_change_of_cells:
  assumes c: "c \<in> set cur" and h: "h \<in> set hist"
  shows "(price_change_of ops th cur hist u c h \<noteq> []) =
   (\<exists>cp hp. p_price c = Cell cp \<and> p_price h = Cell hp \<and> 0 < cp \<and> 0 < hp
         \<and> th \<le> \<bar>f_mul ops (f_div ops (f_sub ops cp hp) hp) 100\<bar>)"
proof -
  have "(\<exists>cp hp. row_get p_price 0 cur c = Value cp \<and> row_get p_price 0 hist h = Value hp
         \<and> 0 < cp \<and> 0 < hp \<and> th \<le> \<bar>f_mul ops (f_div ops (f_sub ops cp hp) hp) 100\<bar>)
      = (\<exists>cp hp. p_price c = Cell cp \<and> p_price h = Cell hp \<and> 0 < cp \<and> 0 < hp
         \<and> th \<le> \<bar>f_mul ops (f_div ops (f_sub ops cp hp) hp) 100\<bar>)"
    using positive_price_cell [OF c] positive_price_cell [OF h] by blast
  then show ?thesis unfolding price_change_of_iff .
qed

lemma availability_change_of_eq:
  "availability_change_of cur hist u c h =
     (if py_ne (row_get p_availability [] cur c) (row_get p_availability [] hist h)
      then [\<lparr>ac_url = u, ac_title = row_get p_title [] cur c,
             old_availability = row_get p_availability [] hist h,
             new_availability = row_get p_availability [] cur c\<rparr>]
      else [])"
  by (simp add: availability_change_of_def Let_def)

lemma py_ne_iff: "py_ne x y = (\<not> (\<exists>a. x = Value a \<and> y = Value a))"
  by (cases x; cases y) (auto simp: py_ne_def)

lemma common_records:
  assumes it: "is_iteration iter"
    and cur: "cur = cpre @ c # cpost" and cu: "p_url c = u" and cf: "u \<notin> p_url ` set cpre"
    and hist: "hist = hpre @ h # hpost" and hu: "p_url h = u" and hl: "u \<notin> p_url ` set hpost"
  shows "generate_comparison_report ops th iter now cur hist
           = Inr (Some (report_of ops th iter now cur hist))"
    and "filter (\<lambda>pc. pc_url pc = u) (price_changes (report_of ops th iter now cur hist))
           = price_change_of ops th cur hist u c h"
    and "filter (\<lambda>ac. ac_url ac = u) (availability_changes (report_of ops th iter now cur hist))
           = availability_change_of cur hist u c h"
proof -
  let ?r = "report_of ops th iter now cur hist"
  have ne: "cur \<noteq> []" "hist \<noteq> []" using cur hist by simp_all
  show "generate_comparison_report ops th iter now cur hist = Inr (Some ?r)"
    by (rule report_closed [OF it ne])
  have c: "first_row cur u = Some c" by (rule first_row_decomp [OF cur cu cf])
  have h: "last_row hist u = Some h" by (rule last_row_decomp [OF hist hu hl])
  let ?us = "iter (common_urls cur hist)"
  have dist: "distinct ?us" by (simp add: iteration_distinct [OF it] distinct_common_urls)
  have "u \<in> set (urls_of cur)" "u \<in> set (urls_of hist)"
    using cur cu hist hu by (auto simp: urls_of_def)
  then have mem: "u \<in> set ?us" by (simp add: iteration_set [OF it] set_common_urls)
  show "filter (\<lambda>pc. pc_url pc = u) (price_changes ?r) = price_change_of ops th cur hist u c h"
    unfolding report_of_fields
    using keyed_concat_filter [of "price_changes_for ops th cur hist" pc_url ?us u,
            OF price_changes_for_key dist mem]
    by (simp add: price_changes_for_def c h)
  show "filter (\<lambda>ac. ac_url ac = u) (availability_changes ?r)
          = availability_change_of cur hist u c h"
    unfolding report_of_fields
    using keyed_concat_filter [of "availability_changes_for cur hist" ac_url ?us u,
            OF availability_changes_for_key dist mem]
    by (simp add: availability_changes_for_def c h)
qed

lemma ex_filter: "(\<exists>x \<in> set xs. P x) = (filter P xs \<noteq> [])"
  by (auto simp: filter_empty_conv)

text \<open>
  Claim C4. Let \<open>u\<close> be a URL of both snapshots, \<open>c\<close> the first row of the current
  snapshot with this URL and \<open>h\<close> the last row of the historical snapshot with it. The
  report has a price-change record for \<open>u\<close> exactly when both rows hold a price, both
  prices are strictly positive and the absolute value of the percentage
  \<open>((new - old) / old) * 100\<close>, as the arithmetic of doubles computes it, is at least
  the threshold; a missing, \<open>NaN\<close> or non-positive price on either side gives no record
  and no exception. The record carries the two prices and the computed percentage
  rounded to two decimals. Whatever the prices, there is an availability-change record
  for \<open>u\<close> exactly when the two availabilities differ (\<open>NaN\<close> differs from everything),
  and it carries both. The availability of a row is the value of its cell, \<open>NaN\<close> when the
  row has no value and another row of the snapshot has one, and the empty string when no
  row has the key.
\<close>

theorem price_change_threshold:
  assumes it: "is_iteration iter"
    and cur: "current_data = cpre @ c # cpost" and cu: "p_url c = u"
    and cf: "u \<notin> p_url ` set cpre"
    and hist: "historical_data = hpre @ h # hpost" and hu: "p_url h = u"
    and hl: "u \<notin> p_url ` set hpost"
  shows "\<exists>results cav hav.
      generate_comparison_report ops threshold iter now current_data historical_data
        = Inr (Some results)
    \<and> ((\<exists>pc \<in> set (price_changes results). pc_url pc = u) \<longleftrightarrow>
         (\<exists>cp hp. p_price c = Cell cp \<and> p_price h = Cell hp \<and> 0 < cp \<and> 0 < hp
             \<and> threshold \<le> \<bar>f_mul ops (f_div ops (f_sub ops cp hp) hp) 100\<bar>))
    \<and> (\<forall>pc \<in> set (price_changes results). pc_url pc = u \<longrightarrow>
           p_price c = Cell (new_price pc) \<and> p_price h = Cell (old_price pc)
         \<and> change_percent pc =
             f_round2 ops (f_mul ops (f_div ops (f_sub ops (new_price pc) (old_price pc))
                                        (old_price pc)) 100))
    \<and> cav = (if \<exists>r \<in> set current_data. p_availability r \<noteq> Absent
             then (case p_availability c of Cell a \<Rightarrow> Value a | _ \<Rightarrow> Nan) else Value [])
    \<and> hav = (if \<exists>r \<in> set historical_data. p_availability r \<noteq> Absent
             then (case p_availability h of Cell a \<Rightarrow> Value a | _ \<Rightarrow> Nan) else Value [])
    \<and> ((\<exists>ac \<in> set (availability_changes results). ac_url ac = u) \<longleftrightarrow>
         \<not> (\<exists>a. cav = Value a \<and> hav = Value a))
    \<and> (\<forall>ac \<in> set (availability_changes results). ac_url ac = u \<longrightarrow>
           old_availability ac = hav \<and> new_availability ac = cav)"
proof -
  let ?r = "report_of ops threshold iter now current_data historical_data"
  let ?cav = "row_get p_availability [] current_data c"
  let ?hav = "row_get p_availability [] historical_data h"
  note rec = common_records [OF it cur cu cf hist hu hl, of ops threshold now]
  have cm: "c \<in> set current_data" using cur by simp
  have hm: "h \<in> set historical_data" using hist by simp
  have 1: "(\<exists>pc \<in> set (price_changes ?r). pc_url pc = u) \<longleftrightarrow>
         (\<exists>cp hp. p_price c = Cell cp \<and> p_price h = Cell hp \<and> 0 < cp \<and> 0 < hp
             \<and> threshold \<le> \<bar>f_mul ops (f_div ops (f_sub ops cp hp) hp) 100\<bar>)"
    unfolding ex_filter rec(2) by (rule price_change_of_cells [OF cm hm])
  have 2: "\<forall>pc \<in> set (price_changes ?r). pc_url pc = u \<longrightarrow>
           p_price c = Cell (new_price pc) \<and> p_price h = Cell (old_price pc)
         \<and> change_percent pc =
             f_round2 ops (f_mul ops (f_div ops (f_sub ops (new_price pc) (old_price pc))
                                        (old_price pc)) 100)"
  proof (intro ballI impI)
    fix pc assume "pc \<in> set (price_changes ?r)" "pc_url pc = u"
    then have "pc \<in> set (filter (\<lambda>pc. pc_url pc = u) (price_changes ?r))" by simp
    then have "pc \<in> set (price_change_of ops threshold current_data historical_data u c h)"
      unfolding rec(2) .
    from price_change_of_record [OF this]
    have p: "row_get p_price 0 current_data c = Value (new_price pc)" "0 < new_price pc"
      "row_get p_price 0 historical_data h = Value (old_price pc)" "0 < old_price pc"
      "change_percent pc =
         f_round2 ops (f_mul ops (f_div ops (f_sub ops (new_price pc) (old_price pc))
                                    (old_price pc)) 100)"
      by simp_all
    have "p_price c = Cell (new_price pc)"
      using positive_price_cell [OF cm p(2)] p(1) by simp
    moreover have "p_price h = Cell (old_price pc)"
      using positive_price_cell [OF hm p(4)] p(3) by simp
    ultimately show "p_price c = Cell (new_price pc) \<and> p_price h = Cell (old_price pc)
         \<and> change_percent pc =
             f_round2 ops (f_mul ops (f_div ops (f_sub ops (new_price pc) (old_price pc))
                                        (old_price pc)) 100)"
      using p(5) by simp
  qed
  have 3: "(\<exists>ac \<in> set (availability_changes ?r). ac_url ac = u) \<longleftrightarrow>
         \<not> (\<exists>a. ?cav = Value a \<and> ?hav = Value a)"
    unfolding ex_filter rec(3) availability_change_of_eq py_ne_iff [symmetric] by simp
  have 4: "\<forall>ac \<in> set (availability_changes ?r). ac_url ac = u \<longrightarrow>
           old_availability ac = ?hav \<and> new_availability ac = ?cav"
  proof (intro ballI impI)
    fix ac assume "ac \<in> set (availability_changes ?r)" "ac_url ac = u"
    then have "ac \<in> set (filter (\<lambda>ac. ac_url ac = u) (availability_changes ?r))" by simp
    then have "ac \<in> set (availability_change_of current_data historical_data u c h)"
      unfolding rec(3) .
    then show "old_availability ac = ?hav \<and> new_availability ac = ?cav"
      by (auto simp: availability_change_of_eq split: if_splits)
  qed
  have 5: "?cav = (if \<exists>r \<in> set current_data. p_availability r \<noteq> Absent
             then (case p_availability c of Cell a \<Rightarrow> Value a | _ \<Rightarrow> Nan) else Value [])"
    by (rule row_get_eq)
  have 6: "?hav = (if \<exists>r \<in> set historical_data. p_availability r \<noteq> Absent
             then (case p_availability h of Cell a \<Rightarrow> Value a | _ \<Rightarrow> Nan) else Value [])"
    by (rule row_get_eq)
  show ?thesis
    using rec(1) 1 2 5 6 3 4 by (intro exI [of _ ?r] exI [of _ ?cav] exI [of _ ?hav] conjI)
qed

lemma mset_concat_map:
  "mset (concat (map f us)) = (\<Sum>u \<in># mset us. mset (f u))"
  by (induction us) auto

lemma mset_concat_map_cong:
  assumes "mset us = mset vs" "\<And>u. u \<in> set us \<Longrightarrow> f u = g u"
  shows "mset (concat (map f us)) = mset (concat (map g vs))"
proof -
  have "(\<Sum>u \<in># mset us. mset (f u)) = (\<Sum>u \<in># mset us. mset (g u))"
    using assms(2) by (intro arg_cong [where f = sum_mset] image_mset_cong) simp
  then show ?thesis by (simp add: mset_concat_map assms(1))
qed

lemma row_get_set:
  "set frame' = set frame \<Longrightarrow> row_get col d frame' r = row_get col d frame r"
  by (simp add: row_get_def list_ex_iff)

lemma urls_of_set: "set frame' = set frame \<Longrightarrow> set (urls_of frame') = set (urls_of frame)"
  by (simp add: urls_of_def)

lemma first_row_permuted:
  assumes s: "set frame' = set frame" and d: "url_determines_row frame"
  shows "first_row frame' u = first_row frame u"
proof (cases "u \<in> set (urls_of frame)")
  case True
  then have "u \<in> set (urls_of frame')" using urls_of_set [OF s] by simp
  from first_row_Some [OF this] obtain r' where
    r': "first_row frame' u = Some r'" "r' \<in> set frame'" "p_url r' = u" by blast
  from first_row_Some [OF True] obtain r where
    r: "first_row frame u = Some r" "r \<in> set frame" "p_url r = u" by blast
  have "r' = r" using d r r' s unfolding url_determines_row_def by blast
  then show ?thesis using r r' by simp
next
  case False
  then have "u \<notin> set (urls_of frame')" using urls_of_set [OF s] by simp
  then show ?thesis using False by (simp add: first_row_None)
qed

lemma last_row_permuted:
  assumes s: "set frame' = set frame" and d: "url_determines_row frame"
  shows "last_row frame' u = last_row frame u"
proof (cases "u \<in> set (urls_of frame)")
  case True
  then have "u \<in> set (urls_of frame')" using urls_of_set [OF s] by simp
  from last_row_Some [OF this] obtain r' where
    r': "last_row frame' u = Some r'" "r' \<in> set frame'" "p_url r' = u" by blast
  from last_row_Some [OF True] obtain r where
    r: "last_row frame u = Some r" "r \<in> set frame" "p_url r = u" by blast
  have "r' = r" using d r r' s unfolding url_determines_row_def by blast
  then show ?thesis using r r' by simp
next
  case False
  then have "u \<notin> set (urls_of frame')" using urls_of_set [OF s] by simp
  then show ?thesis using False by (simp add: last_row_None)
qed

lemma row_get_fun:
  "set frame' = set frame \<Longrightarrow> row_get col d frame' = row_get col d frame"
  by (rule ext) (simp add: row_get_def list_ex_iff)

lemma price_change_of_set:
  assumes "set cur' = set cur" "set hist' = set hist"
  shows "price_change_of ops th cur' hist' u c h = price_change_of ops th cur hist u c h"
  unfolding price_change_of_def row_get_fun [OF assms(1)] row_get_fun [OF assms(2)] ..

lemma availability_change_of_set:
  assumes "set cur' = set cur" "set hist' = set hist"
  shows "availability_change_of cur' hist' u c h = availability_change_of cur hist u c h"
  unfolding availability_change_of_def row_get_fun [OF assms(1)] row_get_fun [OF assms(2)] ..

lemma price_changes_for_permuted:
  assumes "set cur' = set cur" "set hist' = set hist"
    "url_determines_row cur" "url_determines_row hist"
  shows "price_changes_for ops th cur' hist' u = price_changes_for ops th cur hist u"
  unfolding price_changes_for_def price_change_of_set [OF assms(1,2)]
    first_row_permuted [OF assms(1) assms(3)] last_row_permuted [OF assms(2) assms(4)] ..

lemma availability_changes_for_permuted:
  assumes "set cur' = set cur" "set hist' = set hist"
    "url_determines_row cur" "url_determines_row hist"
  shows "availability_changes_for cur' hist' u = availability_changes_for cur hist u"
  unfolding availability_changes_for_def availability_change_of_set [OF assms(1,2)]
    first_row_permuted [OF assms(1) assms(3)] last_row_permuted [OF assms(2) assms(4)] ..

lemma new_product_for_permuted:
  assumes "set cur' = set cur" "url_determines_row cur"
  shows "new_product_for cur' u = new_product_for cur u"
  unfolding new_product_for_def first_row_permuted [OF assms] row_get_fun [OF assms(1)] ..

lemma removed_product_for_permuted:
  assumes "set hist' = set hist" "url_determines_row hist"
  shows "removed_product_for hist' u = removed_product_for hist u"
  unfolding removed_product_for_def last_row_permuted [OF assms] row_get_fun [OF assms(1)] ..

lemma url_lists_permuted:
  assumes "set cur' = set cur" "set hist' = set hist"
  shows "mset (common_urls cur' hist') = mset (common_urls cur hist)"
    "mset (new_urls cur' hist') = mset (new_urls cur hist)"
    "mset (removed_urls cur' hist') = mset (removed_urls cur hist)"
proof -
  have u: "set (urls_of cur') = set (urls_of cur)" "set (urls_of hist') = set (urls_of hist)"
    using urls_of_set [OF assms(1)] urls_of_set [OF assms(2)] by simp_all
  show "mset (common_urls cur' hist') = mset (common_urls cur hist)"
    by (rule iffD1 [OF set_eq_iff_mset_eq_distinct])
       (simp_all add: distinct_common_urls set_common_urls u)
  show "mset (new_urls cur' hist') = mset (new_urls cur hist)"
    by (rule iffD1 [OF set_eq_iff_mset_eq_distinct])
       (simp_all add: distinct_new_urls set_new_urls u)
  show "mset (removed_urls cur' hist') = mset (removed_urls cur hist)"
    by (rule iffD1 [OF set_eq_iff_mset_eq_distinct])
       (simp_all add: distinct_removed_urls set_removed_urls u)
qed

lemma report_of_permuted:
  assumes i1: "is_iteration iter1" and i2: "is_iteration iter2"
    and c: "set cur' = set cur" and h: "set hist' = set hist"
    and dc: "url_determines_row cur" and dh: "url_determines_row hist"
  shows "mset (price_changes (report_of ops th iter2 now cur' hist'))
           = mset (price_changes (report_of ops th iter1 now cur hist))"
    "mset (availability_changes (report_of ops th iter2 now cur' hist'))
           = mset (availability_changes (report_of ops th iter1 now cur hist))"
    "mset (new_products (report_of ops th iter2 now cur' hist'))
           = mset (new_products (report_of ops th iter1 now cur hist))"
    "mset (removed_products (report_of ops th iter2 now cur' hist'))
           = mset (removed_products (report_of ops th iter1 now cur hist))"
proof -
  have m: "mset (iter2 xs) = mset (iter1 ys)" if "mset xs = mset ys" for xs ys
    using i1 i2 that by (simp add: is_iteration_def)
  show "mset (price_changes (report_of ops th iter2 now cur' hist'))
           = mset (price_changes (report_of ops th iter1 now cur hist))"
    unfolding report_of_fields
    by (rule mset_concat_map_cong [OF m [OF url_lists_permuted(1) [OF c h]]])
       (rule price_changes_for_permuted [OF c h dc dh])
  show "mset (availability_changes (report_of ops th iter2 now cur' hist'))
           = mset (availability_changes (report_of ops th iter1 now cur hist))"
    unfolding report_of_fields
    by (rule mset_concat_map_cong [OF m [OF url_lists_permuted(1) [OF c h]]])
       (rule availability_changes_for_permuted [OF c h dc dh])
  show "mset (new_products (report_of ops th iter2 now cur' hist'))
           = mset (new_products (report_of ops th iter1 now cur hist))"
    unfolding report_of_fields
    by (rule mset_concat_map_cong [OF m [OF url_lists_permuted(2) [OF c h]]])
       (rule new_product_for_permuted [OF c dc])
  show "mset (removed_products (report_of ops th iter2 now cur' hist'))
           = mset (removed_products (report_of ops th iter1 now cur hist))"
    unfolding report_of_fields
    by (rule mset_concat_map_cong [OF m [OF url_lists_permuted(3) [OF c h]]])
       (rule removed_product_for_permuted [OF h dh])
qed

text \<open>
  Claim C6. The rows compared for a URL of both snapshots are the first row of the
  current snapshot with this URL and the last row of the historical snapshot with it:
  the records of the report for this URL are those computed from these two rows. When
  the rows that share a URL are identical (in particular when every URL is unique within
  its snapshot), then for every permutation of the rows of either snapshot and every two
  iteration orders of the sets the same two rows are selected, and the two reports have
  the same price changes, availability changes, new products and removed products as
  sets, and (for the same time stamp) the same summary. If a snapshot is empty both
  results are the empty dictionary.
\<close>

theorem diff_order_independent:
  assumes i1: "is_iteration iter1" and i2: "is_iteration iter2"
    and pc: "mset current_data' = mset current_data"
    and ph: "mset historical_data' = mset historical_data"
  shows "(current_data = [] \<or> historical_data = [] \<longrightarrow>
            generate_comparison_report ops threshold iter1 now current_data historical_data
              = Inr None
          \<and> generate_comparison_report ops threshold iter2 now current_data' historical_data'
              = Inr None)
       \<and> (current_data = cpre @ c # cpost \<and> p_url c = u \<and> u \<notin> p_url ` set cpre
          \<and> historical_data = hpre @ h # hpost \<and> p_url h = u \<and> u \<notin> p_url ` set hpost \<longrightarrow>
            (\<exists>r. generate_comparison_report ops threshold iter1 now current_data historical_data
                     = Inr (Some r)
               \<and> filter (\<lambda>pc. pc_url pc = u) (price_changes r)
                   = price_change_of ops threshold current_data historical_data u c h
               \<and> filter (\<lambda>ac. ac_url ac = u) (availability_changes r)
                   = availability_change_of current_data historical_data u c h))
       \<and> (url_determines_row current_data \<and> url_determines_row historical_data
          \<and> current_data = cpre @ c # cpost \<and> p_url c = u \<and> u \<notin> p_url ` set cpre
          \<and> historical_data = hpre @ h # hpost \<and> p_url h = u \<and> u \<notin> p_url ` set hpost
          \<and> current_data' = cpre' @ c' # cpost' \<and> p_url c' = u \<and> u \<notin> p_url ` set cpre'
          \<and> historical_data' = hpre' @ h' # hpost' \<and> p_url h' = u
          \<and> u \<notin> p_url ` set hpost' \<longrightarrow> c' = c \<and> h' = h)
       \<and> (url_determines_row current_data \<and> url_determines_row historical_data
          \<and> current_data \<noteq> [] \<and> historical_data \<noteq> [] \<longrightarrow>
            (\<exists>r r'. generate_comparison_report ops threshold iter1 now current_data
                         historical_data = Inr (Some r)
                 \<and> generate_comparison_report ops threshold iter2 now current_data'
                         historical_data' = Inr (Some r')
                 \<and> set (price_changes r') = set (price_changes r)
                 \<and> set (availability_changes r') = set (availability_changes r)
                 \<and> set (new_products r') = set (new_products r)
                 \<and> set (removed_products r') = set (removed_products r)
                 \<and> report_summary r' = report_summary r))"
proof -
  have c: "set current_data' = set current_data" using pc by (rule mset_eq_setD)
  have h: "set historical_data' = set historical_data" using ph by (rule mset_eq_setD)
  have e: "(current_data' = []) = (current_data = [])"
    "(historical_data' = []) = (historical_data = [])"
    using pc ph by (metis mset_zero_iff)+
  have 1: "current_data = [] \<or> historical_data = [] \<longrightarrow>
            generate_comparison_report ops threshold iter1 now current_data historical_data
              = Inr None
          \<and> generate_comparison_report ops threshold iter2 now current_data' historical_data'
              = Inr None"
    using e by (auto simp: generate_comparison_report_def)
  have 2: "current_data = cpre @ c # cpost \<and> p_url c = u \<and> u \<notin> p_url ` set cpre
          \<and> historical_data = hpre @ h # hpost \<and> p_url h = u \<and> u \<notin> p_url ` set hpost \<longrightarrow>
            (\<exists>r. generate_comparison_report ops threshold iter1 now current_data historical_data
                     = Inr (Some r)
               \<and> filter (\<lambda>pc. pc_url pc = u) (price_changes r)
                   = price_change_of ops threshold current_data historical_data u c h
               \<and> filter (\<lambda>ac. ac_url ac = u) (availability_changes r)
                   = availability_change_of current_data historical_data u c h)"
  proof
    assume a: "current_data = cpre @ c # cpost \<and> p_url c = u \<and> u \<notin> p_url ` set cpre
          \<and> historical_data = hpre @ h # hpost \<and> p_url h = u \<and> u \<notin> p_url ` set hpost"
    then have d: "current_data = cpre @ c # cpost" "p_url c = u" "u \<notin> p_url ` set cpre"
      "historical_data = hpre @ h # hpost" "p_url h = u" "u \<notin> p_url ` set hpost"
      by simp_all
    from common_records [OF i1 d, of ops threshold now]
    show "\<exists>r. generate_comparison_report ops threshold iter1 now current_data historical_data
                     = Inr (Some r)
               \<and> filter (\<lambda>pc. pc_url pc = u) (price_changes r)
                   = price_change_of ops threshold current_data historical_data u c h
               \<and> filter (\<lambda>ac. ac_url ac = u) (availability_changes r)
                   = availability_change_of current_data historical_data u c h"
      by blast
  qed
  have 3: "url_determines_row current_data \<and> url_determines_row historical_data
          \<and> current_data = cpre @ c # cpost \<and> p_url c = u \<and> u \<notin> p_url ` set cpre
          \<and> historical_data = hpre @ h # hpost \<and> p_url h = u \<and> u \<notin> p_url ` set hpost
          \<and> current_data' = cpre' @ c' # cpost' \<and> p_url c' = u \<and> u \<notin> p_url ` set cpre'
          \<and> historical_data' = hpre' @ h' # hpost' \<and> p_url h' = u
          \<and> u \<notin> p_url ` set hpost' \<longrightarrow> c' = c \<and> h' = h"
  proof
    assume a: "url_determines_row current_data \<and> url_determines_row historical_data
          \<and> current_data = cpre @ c # cpost \<and> p_url c = u \<and> u \<notin> p_url ` set cpre
          \<and> historical_data = hpre @ h # hpost \<and> p_url h = u \<and> u \<notin> p_url ` set hpost
          \<and> current_data' = cpre' @ c' # cpost' \<and> p_url c' = u \<and> u \<notin> p_url ` set cpre'
          \<and> historical_data' = hpre' @ h' # hpost' \<and> p_url h' = u
          \<and> u \<notin> p_url ` set hpost'"
    then have dc: "url_determines_row current_data" and dh: "url_determines_row historical_data"
      and d: "current_data = cpre @ c # cpost" "p_url c = u" "u \<notin> p_url ` set cpre"
      and d2: "historical_data = hpre @ h # hpost" "p_url h = u" "u \<notin> p_url ` set hpost"
      and d3: "current_data' = cpre' @ c' # cpost'" "p_url c' = u" "u \<notin> p_url ` set cpre'"
      and d4: "historical_data' = hpre' @ h' # hpost'" "p_url h' = u" "u \<notin> p_url ` set hpost'"
      by blast+
    have "Some c' = first_row current_data' u" using first_row_decomp [OF d3] by simp
    also have "\<dots> = first_row current_data u" by (rule first_row_permuted [OF c dc])
    also have "\<dots> = Some c" by (rule first_row_decomp [OF d])
    finally have c': "c' = c" by simp
    have "Some h' = last_row historical_data' u" using last_row_decomp [OF d4] by simp
    also have "\<dots> = last_row historical_data u" by (rule last_row_permuted [OF h dh])
    also have "\<dots> = Some h" by (rule last_row_decomp [OF d2])
    finally have "h' = h" by simp
    with c' show "c' = c \<and> h' = h" by simp
  qed
  have 4: "url_determines_row current_data \<and> url_determines_row historical_data
          \<and> current_data \<noteq> [] \<and> historical_data \<noteq> [] \<longrightarrow>
            (\<exists>r r'. generate_comparison_report ops threshold iter1 now current_data
                         historical_data = Inr (Some r)
                 \<and> generate_comparison_report ops threshold iter2 now current_data'
                         historical_data' = Inr (Some r')
                 \<and> set (price_changes r') = set (price_changes r)
                 \<and> set (availability_changes r') = set (availability_changes r)
                 \<and> set (new_products r') = set (new_products r)
                 \<and> set (removed_products r') = set (removed_products r)
                 \<and> report_summary r' = report_summary r)"
  proof
    assume a: "url_determines_row current_data \<and> url_determines_row historical_data
          \<and> current_data \<noteq> [] \<and> historical_data \<noteq> []"
    then have dc: "url_determines_row current_data" and dh: "url_determines_row historical_data"
      and ne: "current_data \<noteq> []" "historical_data \<noteq> []" by simp_all
    let ?r = "report_of ops threshold iter1 now current_data historical_data"
    let ?r' = "report_of ops threshold iter2 now current_data' historical_data'"
    have r: "generate_comparison_report ops threshold iter1 now current_data historical_data
               = Inr (Some ?r)"
      by (rule report_closed [OF i1 ne])
    have r': "generate_comparison_report ops threshold iter2 now current_data' historical_data'
               = Inr (Some ?r')"
      using ne e by (intro report_closed [OF i2]) simp_all
    note m = report_of_permuted [OF i1 i2 c h dc dh, of ops threshold now]
    have s: "set (price_changes ?r') = set (price_changes ?r)"
      "set (availability_changes ?r') = set (availability_changes ?r)"
      "set (new_products ?r') = set (new_products ?r)"
      "set (removed_products ?r') = set (removed_products ?r)"
      using m by (auto dest: mset_eq_setD)
    have l: "length (price_changes ?r') = length (price_changes ?r)"
      "length (availability_changes ?r') = length (availability_changes ?r)"
      "length (new_products ?r') = length (new_products ?r)"
      "length (removed_products ?r') = length (removed_products ?r)"
      using m by (auto dest: mset_eq_length)
    have "report_summary ?r' = report_summary ?r"
      unfolding report_of_summary using l by simp
    then show "\<exists>r r'. generate_comparison_report ops threshold iter1 now current_data
                         historical_data = Inr (Some r)
                 \<and> generate_comparison_report ops threshold iter2 now current_data'
                         historical_data' = Inr (Some r')
                 \<and> set (price_changes r') = set (price_changes r)
                 \<and> set (availability_changes r') = set (availability_changes r)
                 \<and> set (new_products r') = set (new_products r)
                 \<and> set (removed_products r') = set (removed_products r)
                 \<and> report_summary r' = report_summary r"
      using r r' s by blast
  qed
  show ?thesis using 1 2 3 4 by (intro conjI)
qed

lemma binary64_simps:
  "f_sub binary64 a b = fl (a - b)"
  "f_div binary64 a b = fl (a / b)"
  "f_mul binary64 a b = fl (a * b)"
  "f_round2 binary64 x = fl (of_int (round_half_even (fl (x * 100))) / 100)"
  by (simp_all add: binary64_def)

lemmas fl_eval = fl_def floor_log2_def pow2_def bit_length.simps round_half_even_def Let_def
  floor_rat_numeral floor_rat_neg_numeral binary64_simps

lemmas diff_eval = generate_comparison_report_def common_urls_def new_urls_def removed_urls_def
  urls_of_def first_row_def last_row_def price_change_of_def availability_change_of_def
  row_get_def py_ne_def with_summary_def row_def PRICE_CHANGE_THRESHOLD_def

lemma is_iteration_id: "is_iteration id"
  by (simp add: is_iteration_def)

lemma is_iteration_rev: "is_iteration rev"
  by (simp add: is_iteration_def)

text \<open>
  The arithmetic of doubles at the prices of the examples: the decimals 3.15, 1.28,
  1.40, 104.99, 13.40 and 14.07 are stored as the nearest doubles.
\<close>

lemma binary64_examples:
  "f_mul binary64 (f_div binary64 (f_sub binary64 105 100) 100) 100 = 5"
  "f_mul binary64 (f_div binary64 (f_sub binary64 94 100) 100) 100 = - 6"
  "f_mul binary64 (f_div binary64 (f_sub binary64 (fl (315 / 100)) 3) 3) 100
     = 1407374883553279 / 281474976710656"
  "f_mul binary64 (f_div binary64 (f_sub binary64 (fl (10499 / 100)) 100) 100) 100
     = 351140033446543 / 70368744177664"
  "f_mul binary64 (f_div binary64 (f_sub binary64 (fl (140 / 100)) (fl (128 / 100)))
     (fl (128 / 100))) 100 = 5277655813324795 / 562949953421312"
  "f_mul binary64 (f_div binary64 (f_sub binary64 (fl (1407 / 100)) (fl (1340 / 100)))
     (fl (1340 / 100))) 100 = 5"
  "f_round2 binary64 5 = 5"
  "f_round2 binary64 (- 6) = - 6"
  "f_round2 binary64 (5277655813324795 / 562949953421312) = fl (937 / 100)"
  by (simp_all add: fl_eval)

text \<open>
  The report on concrete snapshots, in the arithmetic of doubles. With the default
  threshold 5: 100 to 94 is reported with -6 and the availability change beside it; 100
  to 105 is reported with 5; 100 to 104.99 is not reported; 1.28 to 1.40, whose computed
  percentage is 9.374999999999991, is reported with 9.37. With several rows of one URL
  the first current row and the last historical row are compared. A price that is
  missing, \<open>NaN\<close>, zero or negative gives no price change, and the availability change
  is still reported; \<open>NaN\<close> differs from \<open>NaN\<close>.
\<close>

lemma diff_examples:
  "generate_comparison_report binary64 PRICE_CHANGE_THRESHOLD id now
     [row ''x'' 94 ''OutOfStock''] [row ''x'' 100 ''InStock'']
   = Inr (Some
       \<lparr>price_changes =
          [\<lparr>pc_url = ''x'', pc_title = Value ''T'', old_price = 100, new_price = 94,
            change_percent = - 6\<rparr>],
        availability_changes =
          [\<lparr>ac_url = ''x'', ac_title = Value ''T'', old_availability = Value ''InStock'',
            new_availability = Value ''OutOfStock''\<rparr>],
        new_products = [], removed_products = [],
        report_summary = Some
          \<lparr>total_price_changes = 1, total_availability_changes = 1, new_products_count = 0,
           removed_products_count = 0, generated_at = now\<rparr>\<rparr>)"
  "generate_comparison_report binary64 PRICE_CHANGE_THRESHOLD id now
     [row ''x'' 105 ''InStock''] [row ''x'' 100 ''InStock'']
   = Inr (Some
       \<lparr>price_changes =
          [\<lparr>pc_url = ''x'', pc_title = Value ''T'', old_price = 100, new_price = 105,
            change_percent = 5\<rparr>],
        availability_changes = [], new_products = [], removed_products = [],
        report_summary = Some
          \<lparr>total_price_changes = 1, total_availability_changes = 0, new_products_count = 0,
           removed_products_count = 0, generated_at = now\<rparr>\<rparr>)"
  "generate_comparison_report binary64 PRICE_CHANGE_THRESHOLD id now
     [row ''x'' (fl (10499 / 100)) ''InStock''] [row ''x'' 100 ''InStock'']
   = Inr (Some
       \<lparr>price_changes = [], availability_changes = [], new_products = [], removed_products = [],
        report_summary = Some
          \<lparr>total_price_changes = 0, total_availability_changes = 0, new_products_count = 0,
           removed_products_count = 0, generated_at = now\<rparr>\<rparr>)"
  "generate_comparison_report binary64 PRICE_CHANGE_THRESHOLD id now
     [row ''x'' (fl (140 / 100)) ''InStock''] [row ''x'' (fl (128 / 100)) ''InStock'']
   = Inr (Some
       \<lparr>price_changes =
          [\<lparr>pc_url = ''x'', pc_title = Value ''T'', old_price = fl (128 / 100),
            new_price = fl (140 / 100), change_percent = fl (937 / 100)\<rparr>],
        availability_changes = [], new_products = [], removed_products = [],
        report_summary = Some
          \<lparr>total_price_changes = 1, total_availability_changes = 0, new_products_count = 0,
           removed_products_count = 0, generated_at = now\<rparr>\<rparr>)"
  by (simp_all add: diff_eval fl_eval)

lemma diff_duplicate_examples:
  "generate_comparison_report binary64 5 id now
     [row ''y'' 10 ''s'', row ''x'' 94 ''OutOfStock'', row ''x'' 50 ''InStock'']
     [row ''x'' 20 ''OutOfStock'', row ''z'' 5 ''s'', row ''x'' 100 ''InStock'']
   = Inr (Some
       \<lparr>price_changes =
          [\<lparr>pc_url = ''x'', pc_title = Value ''T'', old_price = 100, new_price = 94,
            change_percent = - 6\<rparr>],
        availability_changes =
          [\<lparr>ac_url = ''x'', ac_title = Value ''T'', old_availability = Value ''InStock'',
            new_availability = Value ''OutOfStock''\<rparr>],
        new_products = [\<lparr>np_url = ''y'', np_title = Value ''T'', np_price = Value 10\<rparr>],
        removed_products = [\<lparr>rp_url = ''z'', rp_title = Value ''T'', last_price = Value 5\<rparr>],
        report_summary = Some
          \<lparr>total_price_changes = 1, total_availability_changes = 1, new_products_count = 1,
           removed_products_count = 1, generated_at = now\<rparr>\<rparr>)"
  "generate_comparison_report binary64 5 id now
     [row ''a'' 10 ''s'']
     [row ''c'' 30 ''s'', row ''a'' 10 ''s'', row ''c'' 31 ''s'']
   = Inr (Some
       \<lparr>price_changes = [], availability_changes = [], new_products = [],
        removed_products = [\<lparr>rp_url = ''c'', rp_title = Value ''T'', last_price = Value 31\<rparr>],
        report_summary = Some
          \<lparr>total_price_changes = 0, total_availability_changes = 0, new_products_count = 0,
           removed_products_count = 1, generated_at = now\<rparr>\<rparr>)"
  by (simp_all add: diff_eval fl_eval)

lemma diff_missing_price_examples:
  "generate_comparison_report binary64 5 id now
     [\<lparr>p_url = ''x'', p_title = Cell ''T'', p_price = Absent, p_availability = Cell ''A''\<rparr>]
     [row ''x'' 100 ''B'']
   = Inr (Some
       \<lparr>price_changes = [],
        availability_changes =
          [\<lparr>ac_url = ''x'', ac_title = Value ''T'', old_availability = Value ''B'',
            new_availability = Value ''A''\<rparr>],
        new_products = [], removed_products = [],
        report_summary = Some
          \<lparr>total_price_changes = 0, total_availability_changes = 1, new_products_count = 0,
           removed_products_count = 0, generated_at = now\<rparr>\<rparr>)"
  "generate_comparison_report binary64 5 id now
     [row ''x'' 100 ''A'']
     [\<lparr>p_url = ''x'', p_title = Cell ''T'', p_price = Cell_nan, p_availability = Cell ''B''\<rparr>]
   = Inr (Some
       \<lparr>price_changes = [],
        availability_changes =
          [\<lparr>ac_url = ''x'', ac_title = Value ''T'', old_availability = Value ''B'',
            new_availability = Value ''A''\<rparr>],
        new_products = [], removed_products = [],
        report_summary = Some
          \<lparr>total_price_changes = 0, total_availability_changes = 1, new_products_count = 0,
           removed_products_count = 0, generated_at = now\<rparr>\<rparr>)"
  "generate_comparison_report binary64 5 id now
     [row ''x'' 0 ''A''] [row ''x'' 100 ''B'']
   = Inr (Some
       \<lparr>price_changes = [],
        availability_changes =
          [\<lparr>ac_url = ''x'', ac_title = Value ''T'', old_availability = Value ''B'',
            new_availability = Value ''A''\<rparr>],
        new_products = [], removed_products = [],
        report_summary = Some
          \<lparr>total_price_changes = 0, total_availability_changes = 1, new_products_count = 0,
           removed_products_count = 0, generated_at = now\<rparr>\<rparr>)"
  "generate_comparison_report binary64 5 id now
     [row ''x'' 100 ''A''] [row ''x'' (- 1) ''A'']
   = Inr (Some
       \<lparr>price_changes = [], availability_changes = [], new_products = [], removed_products = [],
        report_summary = Some
          \<lparr>total_price_changes = 0, total_availability_changes = 0, new_products_count = 0,
           removed_products_count = 0, generated_at = now\<rparr>\<rparr>)"
  "generate_comparison_report binary64 5 id now
     [\<lparr>p_url = ''x'', p_title = Cell ''T'', p_price = Cell 100, p_availability = Cell_nan\<rparr>]
     [\<lparr>p_url = ''x'', p_title = Cell ''T'', p_price = Cell 100, p_availability = Cell_nan\<rparr>]
   = Inr (Some
       \<lparr>price_changes = [],
        availability_changes =
          [\<lparr>ac_url = ''x'', ac_title = Value ''T'', old_availability = Nan,
            new_availability = Nan\<rparr>],
        new_products = [], removed_products = [],
        report_summary = Some
          \<lparr>total_price_changes = 0, total_availability_changes = 1, new_products_count = 0,
           removed_products_count = 0, generated_at = now\<rparr>\<rparr>)"
  by (simp_all add: diff_eval fl_eval)

text \<open>
  Claim C4 as stated fails on the code, which computes the percentage in doubles. From
  3.00 to 3.15 the change is 5 per cent, but 3.15 is stored as the double below it and
  the computed percentage is 4.9999999999999964: no record. From 13.40 to 14.07 the
  percentage of the two stored doubles is below 5, but the computed one is 5.0: a
  record.
\<close>

theorem price_change_rounding_counterexample:
  "generate_comparison_report binary64 5 id ''now''
     [row ''x'' (fl (315 / 100)) ''s''] [row ''x'' 3 ''s'']
   = Inr (Some
       \<lparr>price_changes = [], availability_changes = [], new_products = [], removed_products = [],
        report_summary = Some
          \<lparr>total_price_changes = 0, total_availability_changes = 0, new_products_count = 0,
           removed_products_count = 0, generated_at = ''now''\<rparr>\<rparr>)
   \<and> (5 :: rat) \<le> \<bar>(315 / 100 - 3) / 3 * 100\<bar>
   \<and> generate_comparison_report binary64 5 id ''now''
     [row ''x'' (fl (1407 / 100)) ''s''] [row ''x'' (fl (1340 / 100)) ''s'']
   = Inr (Some
       \<lparr>price_changes =
          [\<lparr>pc_url = ''x'', pc_title = Value ''T'', old_price = fl (1340 / 100),
            new_price = fl (1407 / 100), change_percent = 5\<rparr>],
        availability_changes = [], new_products = [], removed_products = [],
        report_summary = Some
          \<lparr>total_price_changes = 1, total_availability_changes = 0, new_products_count = 0,
           removed_products_count = 0, generated_at = ''now''\<rparr>\<rparr>)
   \<and> \<bar>(fl (1407 / 100) - fl (1340 / 100)) / fl (1340 / 100) * 100\<bar> < 5"
  by (simp add: diff_eval fl_eval)

text \<open>
  Claim C5 as stated fails when a snapshot is empty: the function returns the empty
  dictionary, and the URL of the other snapshot is reported neither as new nor as
  removed.
\<close>

theorem diff_empty_counterexample:
  "generate_comparison_report binary64 5 id ''now'' [row ''a'' 100 ''En stock''] [] = Inr None
   \<and> ''a'' \<in> p_url ` set [row ''a'' 100 ''En stock''] - p_url ` set []
   \<and> generate_comparison_report binary64 5 id ''now'' [] [row ''b'' 100 ''En stock''] = Inr None
   \<and> ''b'' \<in> p_url ` set [row ''b'' 100 ''En stock''] - p_url ` set []"
  by (simp add: generate_comparison_report_def row_def)

text \<open>
  Claim C6 as stated fails when a URL has two rows that differ. The first row of the
  current snapshot is compared: swapping the two current rows changes the price
  changes. The last row of the historical snapshot is compared: swapping the two
  historical rows changes them too.
\<close>

theorem diff_duplicate_counterexample:
  "mset [row ''a'' 200 ''s'', row ''a'' 100 ''s''] = mset [row ''a'' 100 ''s'', row ''a'' 200 ''s'']
   \<and> generate_comparison_report binary64 5 id ''now''
        [row ''a'' 100 ''s'', row ''a'' 200 ''s''] [row ''a'' 100 ''s'']
      = Inr (Some
          \<lparr>price_changes = [], availability_changes = [], new_products = [],
           removed_products = [],
           report_summary = Some
             \<lparr>total_price_changes = 0, total_availability_changes = 0, new_products_count = 0,
              removed_products_count = 0, generated_at = ''now''\<rparr>\<rparr>)
   \<and> generate_comparison_report binary64 5 id ''now''
        [row ''a'' 200 ''s'', row ''a'' 100 ''s''] [row ''a'' 100 ''s'']
      = Inr (Some
          \<lparr>price_changes =
             [\<lparr>pc_url = ''a'', pc_title = Value ''T'', old_price = 100, new_price = 200,
               change_percent = 100\<rparr>],
           availability_changes = [], new_products = [], removed_products = [],
           report_summary = Some
             \<lparr>total_price_changes = 1, total_availability_changes = 0, new_products_count = 0,
              removed_products_count = 0, generated_at = ''now''\<rparr>\<rparr>)
   \<and> mset [row ''a'' 50 ''s'', row ''a'' 100 ''s''] = mset [row ''a'' 100 ''s'', row ''a'' 50 ''s'']
   \<and> generate_comparison_report binary64 5 id ''now''
        [row ''a'' 100 ''s''] [row ''a'' 50 ''s'', row ''a'' 100 ''s'']
      = Inr (Some
          \<lparr>price_changes = [], availability_changes = [], new_products = [],
           removed_products = [],
           report_summary = Some
             \<lparr>total_price_changes = 0, total_availability_changes = 0, new_products_count = 0,
              removed_products_count = 0, generated_at = ''now''\<rparr>\<rparr>)
   \<and> generate_comparison_report binary64 5 id ''now''
        [row ''a'' 100 ''s''] [row ''a'' 100 ''s'', row ''a'' 50 ''s'']
      = Inr (Some
          \<lparr>price_changes =
             [\<lparr>pc_url = ''a'', pc_title = Value ''T'', old_price = 50, new_price = 100,
               change_percent = 100\<rparr>],
           availability_changes = [], new_products = [], removed_products = [],
           report_summary = Some
             \<lparr>total_price_changes = 1, total_availability_changes = 0, new_products_count = 0,
              removed_products_count = 0, generated_at = ''now''\<rparr>\<rparr>)"
  by (simp add: diff_eval fl_eval)

theorem price_change_threshold_witness:
  "is_iteration id
   \<and> [row ''y'' 10 ''s'', row ''x'' 94 ''OutOfStock'', row ''x'' 50 ''InStock'']
        = [row ''y'' 10 ''s''] @ row ''x'' 94 ''OutOfStock'' # [row ''x'' 50 ''InStock'']
   \<and> p_url (row ''x'' 94 ''OutOfStock'') = ''x''
   \<and> ''x'' \<notin> p_url ` set [row ''y'' 10 ''s'']
   \<and> [row ''x'' 20 ''OutOfStock'', row ''z'' 5 ''s'', row ''x'' 100 ''InStock'']
        = [row ''x'' 20 ''OutOfStock'', row ''z'' 5 ''s''] @ row ''x'' 100 ''InStock'' # []
   \<and> p_url (row ''x'' 100 ''InStock'') = ''x''
   \<and> ''x'' \<notin> p_url ` set []
   \<and> (\<exists>results.
        generate_comparison_report binary64 5 id ''now''
          [row ''y'' 10 ''s'', row ''x'' 94 ''OutOfStock'', row ''x'' 50 ''InStock'']
          [row ''x'' 20 ''OutOfStock'', row ''z'' 5 ''s'', row ''x'' 100 ''InStock'']
          = Inr (Some results)
      \<and> (\<exists>pc \<in> set (price_changes results). pc_url pc = ''x'')
      \<and> (\<forall>pc \<in> set (price_changes results). pc_url pc = ''x'' \<longrightarrow>
            old_price pc = 100 \<and> new_price pc = 94 \<and> change_percent pc = - 6)
      \<and> (\<exists>ac \<in> set (availability_changes results). ac_url ac = ''x'')
      \<and> (\<forall>ac \<in> set (availability_changes results). ac_url ac = ''x'' \<longrightarrow>
            old_availability ac = Value ''InStock''
          \<and> new_availability ac = Value ''OutOfStock''))"
proof -
  let ?c = "row ''x'' 94 ''OutOfStock''" and ?h = "row ''x'' 100 ''InStock''"
  let ?cur = "[row ''y'' 10 ''s'', row ''x'' 94 ''OutOfStock'', row ''x'' 50 ''InStock'']"
  let ?hist = "[row ''x'' 20 ''OutOfStock'', row ''z'' 5 ''s'', row ''x'' 100 ''InStock'']"
  have h1: "is_iteration id" by (rule is_iteration_id)
  have h2: "?cur = [row ''y'' 10 ''s''] @ ?c # [row ''x'' 50 ''InStock'']" by simp
  have h3: "p_url ?c = ''x''" by (simp add: row_def)
  have h4: "''x'' \<notin> p_url ` set [row ''y'' 10 ''s'']" by (simp add: row_def)
  have h5: "?hist = [row ''x'' 20 ''OutOfStock'', row ''z'' 5 ''s''] @ ?h # []" by simp
  have h6: "p_url ?h = ''x''" by (simp add: row_def)
  have h7: "''x'' \<notin> p_url ` set []" by simp
  from price_change_threshold [OF h1 h2 h3 h4 h5 h6 h7, where ops = binary64
         and threshold = 5 and now = "''now''"]
  obtain results cav hav where
    t: "generate_comparison_report binary64 5 id ''now'' ?cur ?hist = Inr (Some results)
    \<and> ((\<exists>pc \<in> set (price_changes results). pc_url pc = ''x'') \<longleftrightarrow>
         (\<exists>cp hp. p_price ?c = Cell cp \<and> p_price ?h = Cell hp \<and> 0 < cp \<and> 0 < hp
             \<and> 5 \<le> \<bar>f_mul binary64 (f_div binary64 (f_sub binary64 cp hp) hp) 100\<bar>))
    \<and> (\<forall>pc \<in> set (price_changes results). pc_url pc = ''x'' \<longrightarrow>
           p_price ?c = Cell (new_price pc) \<and> p_price ?h = Cell (old_price pc)
         \<and> change_percent pc =
             f_round2 binary64
               (f_mul binary64 (f_div binary64 (f_sub binary64 (new_price pc) (old_price pc))
                                  (old_price pc)) 100))
    \<and> cav = (if \<exists>r \<in> set ?cur. p_availability r \<noteq> Absent
             then (case p_availability ?c of Cell a \<Rightarrow> Value a | _ \<Rightarrow> Nan) else Value [])
    \<and> hav = (if \<exists>r \<in> set ?hist. p_availability r \<noteq> Absent
             then (case p_availability ?h of Cell a \<Rightarrow> Value a | _ \<Rightarrow> Nan) else Value [])
    \<and> ((\<exists>ac \<in> set (availability_changes results). ac_url ac = ''x'') \<longleftrightarrow>
         \<not> (\<exists>a. cav = Value a \<and> hav = Value a))
    \<and> (\<forall>ac \<in> set (availability_changes results). ac_url ac = ''x'' \<longrightarrow>
           old_availability ac = hav \<and> new_availability ac = cav)"
    by (elim exE) (rule that)
  note r = t [THEN conjunct1]
    and iff = t [THEN conjunct2, THEN conjunct1]
    and rec = t [THEN conjunct2, THEN conjunct2, THEN conjunct1]
    and cav = t [THEN conjunct2, THEN conjunct2, THEN conjunct2, THEN conjunct1]
    and hav = t [THEN conjunct2, THEN conjunct2, THEN conjunct2, THEN conjunct2, THEN conjunct1]
    and aiff = t [THEN conjunct2, THEN conjunct2, THEN conjunct2, THEN conjunct2, THEN conjunct2,
                  THEN conjunct1]
    and arec = t [THEN conjunct2, THEN conjunct2, THEN conjunct2, THEN conjunct2, THEN conjunct2,
                  THEN conjunct2]
  have pc: "p_price ?c = Cell 94" and ph: "p_price ?h = Cell 100" by (simp_all add: row_def)
  have cav': "cav = Value ''OutOfStock''" unfolding cav by (simp add: row_def)
  have hav': "hav = Value ''InStock''" unfolding hav by (simp add: row_def)
  have ex: "\<exists>pc \<in> set (price_changes results). pc_url pc = ''x''"
    unfolding iff pc ph by (simp add: binary64_examples)
  have all: "\<forall>pc \<in> set (price_changes results). pc_url pc = ''x'' \<longrightarrow>
            old_price pc = 100 \<and> new_price pc = 94 \<and> change_percent pc = - 6"
  proof (intro ballI impI)
    fix pc assume "pc \<in> set (price_changes results)" "pc_url pc = ''x''"
    with rec have "p_price ?c = Cell (new_price pc) \<and> p_price ?h = Cell (old_price pc)
         \<and> change_percent pc =
             f_round2 binary64
               (f_mul binary64 (f_div binary64 (f_sub binary64 (new_price pc) (old_price pc))
                                  (old_price pc)) 100)"
      by simp
    then have p: "Cell 94 = Cell (new_price pc)" "Cell 100 = Cell (old_price pc)"
      "change_percent pc =
         f_round2 binary64
           (f_mul binary64 (f_div binary64 (f_sub binary64 (new_price pc) (old_price pc))
                              (old_price pc)) 100)"
      unfolding pc ph by simp_all
    from p(1,2) have n: "new_price pc = 94" "old_price pc = 100" by simp_all
    show "old_price pc = 100 \<and> new_price pc = 94 \<and> change_percent pc = - 6"
      using p(3) unfolding n by (simp add: binary64_examples)
  qed
  have aex: "\<exists>ac \<in> set (availability_changes results). ac_url ac = ''x''"
    unfolding aiff cav' hav' by simp
  have aall: "\<forall>ac \<in> set (availability_changes results). ac_url ac = ''x'' \<longrightarrow>
            old_availability ac = Value ''InStock''
          \<and> new_availability ac = Value ''OutOfStock''"
    using arec unfolding cav' hav' .
  show ?thesis
    using h1 h2 h3 h4 h5 h6 h7 r ex all aex aall by (intro conjI exI [of _ results])
qed

theorem diff_partition_witness:
  "is_iteration rev
   \<and> [row ''a'' 10 ''s'', row ''b'' 20 ''s''] \<noteq> []
   \<and> [row ''c'' 30 ''s'', row ''b'' 20 ''s'', row ''c'' 31 ''s''] \<noteq> []
   \<and> (\<exists>results.
         generate_comparison_report binary64 5 rev ''now'' [row ''a'' 10 ''s'', row ''b'' 20 ''s'']
           [row ''c'' 30 ''s'', row ''b'' 20 ''s'', row ''c'' 31 ''s''] = Inr (Some results)
       \<and> set (map np_url (new_products results)) = {''a''}
       \<and> set (map rp_url (removed_products results)) = {''c''}
       \<and> (\<forall>rp \<in> set (removed_products results). last_price rp = Value 31)
       \<and> distinct (map rp_url (removed_products results))
       \<and> distinct (map pc_url (price_changes results)))
   \<and> generate_comparison_report binary64 5 rev ''now'' [] [row ''c'' 30 ''s''] = Inr None
   \<and> generate_comparison_report binary64 5 rev ''now'' [row ''a'' 10 ''s''] [] = Inr None"
proof -
  let ?cur = "[row ''a'' 10 ''s'', row ''b'' 20 ''s'']"
  let ?hist = "[row ''c'' 30 ''s'', row ''b'' 20 ''s'', row ''c'' 31 ''s'']"
  have h1: "is_iteration rev" by (rule is_iteration_rev)
  have h2: "?cur \<noteq> []" by simp
  have h3: "?hist \<noteq> []" by simp
  have s1: "p_url ` set ?cur - p_url ` set ?hist = {''a''}" by (auto simp: row_def)
  have s2: "p_url ` set ?hist - p_url ` set ?cur = {''c''}" by (auto simp: row_def)
  have ne: "?cur \<noteq> [] \<and> ?hist \<noteq> []" by simp
  from diff_partition [OF h1, where current_data = ?cur and historical_data = ?hist
         and ops = binary64 and threshold = 5 and now = "''now''",
         THEN conjunct2, THEN mp, OF ne]
  obtain results where
    t: "generate_comparison_report binary64 5 rev ''now'' ?cur ?hist = Inr (Some results)
      \<and> set (map np_url (new_products results)) = p_url ` set ?cur - p_url ` set ?hist
      \<and> set (map rp_url (removed_products results)) = p_url ` set ?hist - p_url ` set ?cur
      \<and> set (map pc_url (price_changes results)) \<subseteq> p_url ` set ?cur \<inter> p_url ` set ?hist
      \<and> set (map ac_url (availability_changes results))
          \<subseteq> p_url ` set ?cur \<inter> p_url ` set ?hist
      \<and> (\<forall>rp \<in> set (removed_products results).
                \<exists>pre h post. ?hist = pre @ h # post \<and> p_url h = rp_url rp
                  \<and> rp_url rp \<notin> p_url ` set post
                  \<and> last_price rp =
                      (if \<exists>r \<in> set ?hist. p_price r \<noteq> Absent
                       then (case p_price h of Cell v \<Rightarrow> Value v | _ \<Rightarrow> Nan)
                       else Value 0))
      \<and> (\<forall>np \<in> set (new_products results).
                \<exists>pre c post. ?cur = pre @ c # post \<and> p_url c = np_url np
                  \<and> np_url np \<notin> p_url ` set pre
                  \<and> np_price np =
                      (if \<exists>r \<in> set ?cur. p_price r \<noteq> Absent
                       then (case p_price c of Cell v \<Rightarrow> Value v | _ \<Rightarrow> Nan)
                       else Value 0))
      \<and> distinct (map pc_url (price_changes results))
      \<and> distinct (map ac_url (availability_changes results))
      \<and> distinct (map np_url (new_products results))
      \<and> distinct (map rp_url (removed_products results))"
    by (elim exE) (rule that)
  note r = t [THEN conjunct1]
    and n = t [THEN conjunct2, THEN conjunct1]
    and m = t [THEN conjunct2, THEN conjunct2, THEN conjunct1]
    and l = t [THEN conjunct2, THEN conjunct2, THEN conjunct2, THEN conjunct2, THEN conjunct2,
               THEN conjunct1]
    and dp = t [THEN conjunct2, THEN conjunct2, THEN conjunct2, THEN conjunct2, THEN conjunct2,
               THEN conjunct2, THEN conjunct2, THEN conjunct1]
    and dr = t [THEN conjunct2, THEN conjunct2, THEN conjunct2, THEN conjunct2, THEN conjunct2,
               THEN conjunct2, THEN conjunct2, THEN conjunct2, THEN conjunct2, THEN conjunct2]
  have lp: "\<forall>rp \<in> set (removed_products results). last_price rp = Value 31"
  proof
    fix rp assume a: "rp \<in> set (removed_products results)"
    then have "rp_url rp \<in> set (map rp_url (removed_products results))" by simp
    then have u: "rp_url rp = ''c''" unfolding m s2 by simp
    from l [THEN bspec, OF a] obtain pre h post where
      q: "?hist = pre @ h # post \<and> p_url h = rp_url rp \<and> rp_url rp \<notin> p_url ` set post
        \<and> last_price rp =
           (if \<exists>r \<in> set ?hist. p_price r \<noteq> Absent
            then (case p_price h of Cell v \<Rightarrow> Value v | _ \<Rightarrow> Nan) else Value 0)"
      by (elim exE) (rule that)
    note p = q [THEN conjunct1] q [THEN conjunct2, THEN conjunct1]
      q [THEN conjunct2, THEN conjunct2, THEN conjunct1]
      q [THEN conjunct2, THEN conjunct2, THEN conjunct2]
    have "last_row ?hist ''c'' = Some h"
      using last_row_decomp [OF p(1,2,3)] unfolding u .
    then have "h = row ''c'' 31 ''s''" by (simp add: last_row_def row_def)
    then show "last_price rp = Value 31" unfolding p(4) by (simp add: row_def)
  qed
  have emp1: "[] = [] \<or> [row ''c'' 30 ''s''] = []" by simp
  have emp2: "[row ''a'' 10 ''s''] = [] \<or> [] = []" by simp
  note e1 = diff_partition [OF h1, where current_data = "[]"
      and historical_data = "[row ''c'' 30 ''s'']" and ops = binary64 and threshold = 5
      and now = "''now''", THEN conjunct1, THEN mp, OF emp1]
  note e2 = diff_partition [OF h1, where current_data = "[row ''a'' 10 ''s'']"
      and historical_data = "[]" and ops = binary64 and threshold = 5
      and now = "''now''", THEN conjunct1, THEN mp, OF emp2]
  show ?thesis
    using h1 h2 h3 r n [unfolded s1] m [unfolded s2] lp dr dp e1 e2
    by (intro conjI exI [of _ results])
qed

theorem diff_order_independent_witness:
  "is_iteration id \<and> is_iteration rev
   \<and> mset [row ''b'' 21 ''s'', row ''a'' 10 ''s''] = mset [row ''a'' 10 ''s'', row ''b'' 21 ''s'']
   \<and> mset [row ''b'' 20 ''s'', row ''c'' 30 ''s''] = mset [row ''c'' 30 ''s'', row ''b'' 20 ''s'']
   \<and> url_determines_row [row ''a'' 10 ''s'', row ''b'' 21 ''s'']
   \<and> url_determines_row [row ''c'' 30 ''s'', row ''b'' 20 ''s'']
   \<and> (\<exists>r r'.
         generate_comparison_report binary64 5 id ''now'' [row ''a'' 10 ''s'', row ''b'' 21 ''s'']
           [row ''c'' 30 ''s'', row ''b'' 20 ''s''] = Inr (Some r)
       \<and> generate_comparison_report binary64 5 rev ''now'' [row ''b'' 21 ''s'', row ''a'' 10 ''s'']
           [row ''b'' 20 ''s'', row ''c'' 30 ''s''] = Inr (Some r')
       \<and> set (price_changes r') = set (price_changes r)
       \<and> set (availability_changes r') = set (availability_changes r)
       \<and> set (new_products r') = set (new_products r)
       \<and> set (removed_products r') = set (removed_products r)
       \<and> report_summary r' = report_summary r)
   \<and> (\<exists>r. generate_comparison_report binary64 5 id ''now''
             [row ''a'' 10 ''s'', row ''b'' 21 ''s'', row ''b'' 40 ''s'']
             [row ''b'' 10 ''s'', row ''c'' 30 ''s'', row ''b'' 20 ''s''] = Inr (Some r)
          \<and> filter (\<lambda>pc. pc_url pc = ''b'') (price_changes r)
              = [\<lparr>pc_url = ''b'', pc_title = Value ''T'', old_price = 20, new_price = 21,
                  change_percent = 5\<rparr>])
   \<and> generate_comparison_report binary64 5 id ''now'' [] [row ''c'' 30 ''s''] = Inr None
   \<and> generate_comparison_report binary64 5 rev ''now'' [] [row ''c'' 30 ''s''] = Inr None"
proof -
  let ?cur = "[row ''a'' 10 ''s'', row ''b'' 21 ''s'']"
  let ?cur' = "[row ''b'' 21 ''s'', row ''a'' 10 ''s'']"
  let ?hist = "[row ''c'' 30 ''s'', row ''b'' 20 ''s'']"
  let ?hist' = "[row ''b'' 20 ''s'', row ''c'' 30 ''s'']"
  let ?dcur = "[row ''a'' 10 ''s'', row ''b'' 21 ''s'', row ''b'' 40 ''s'']"
  let ?dhist = "[row ''b'' 10 ''s'', row ''c'' 30 ''s'', row ''b'' 20 ''s'']"
  have h1: "is_iteration id" by (rule is_iteration_id)
  have h2: "is_iteration rev" by (rule is_iteration_rev)
  have h3: "mset ?cur' = mset ?cur" by simp
  have h4: "mset ?hist' = mset ?hist" by simp
  have h5: "url_determines_row ?cur" by (simp add: url_determines_row_def row_def)
  have h6: "url_determines_row ?hist" by (simp add: url_determines_row_def row_def)
  have ne: "?cur \<noteq> []" "?hist \<noteq> []" by simp_all
  have prem: "url_determines_row ?cur \<and> url_determines_row ?hist \<and> ?cur \<noteq> [] \<and> ?hist \<noteq> []"
    using h5 h6 ne by (intro conjI)
  note a = diff_order_independent [OF h1 h2 h3 h4, where ops = binary64 and threshold = 5
      and now = "''now''", THEN conjunct2, THEN conjunct2, THEN conjunct2, THEN mp, OF prem]
  have d: "?dcur = [row ''a'' 10 ''s''] @ row ''b'' 21 ''s'' # [row ''b'' 40 ''s'']
       \<and> p_url (row ''b'' 21 ''s'') = ''b'' \<and> ''b'' \<notin> p_url ` set [row ''a'' 10 ''s'']
       \<and> ?dhist = [row ''b'' 10 ''s'', row ''c'' 30 ''s''] @ row ''b'' 20 ''s'' # []
       \<and> p_url (row ''b'' 20 ''s'') = ''b'' \<and> ''b'' \<notin> p_url ` set []"
    by (simp add: row_def)
  have pco: "price_change_of binary64 5 ?dcur ?dhist ''b'' (row ''b'' 21 ''s'') (row ''b'' 20 ''s'')
       = [\<lparr>pc_url = ''b'', pc_title = Value ''T'', old_price = 20, new_price = 21,
            change_percent = 5\<rparr>]"
    by (simp add: diff_eval fl_eval)
  from diff_order_independent [OF h1 h1 refl refl, where current_data = ?dcur
         and cpre = "[row ''a'' 10 ''s'']" and c = "row ''b'' 21 ''s''"
         and cpost = "[row ''b'' 40 ''s'']" and u = "''b''" and historical_data = ?dhist
         and hpre = "[row ''b'' 10 ''s'', row ''c'' 30 ''s'']" and h = "row ''b'' 20 ''s''"
         and hpost = "[]" and ops = binary64 and threshold = 5 and now = "''now''",
         THEN conjunct2, THEN conjunct1, THEN mp, OF d]
  obtain r where
    sel: "generate_comparison_report binary64 5 id ''now'' ?dcur ?dhist = Inr (Some r)
      \<and> filter (\<lambda>pc. pc_url pc = ''b'') (price_changes r)
          = price_change_of binary64 5 ?dcur ?dhist ''b'' (row ''b'' 21 ''s'') (row ''b'' 20 ''s'')
      \<and> filter (\<lambda>ac. ac_url ac = ''b'') (availability_changes r)
          = availability_change_of ?dcur ?dhist ''b'' (row ''b'' 21 ''s'') (row ''b'' 20 ''s'')"
    by (elim exE) (rule that)
  have b: "\<exists>r. generate_comparison_report binary64 5 id ''now'' ?dcur ?dhist = Inr (Some r)
          \<and> filter (\<lambda>pc. pc_url pc = ''b'') (price_changes r)
              = [\<lparr>pc_url = ''b'', pc_title = Value ''T'', old_price = 20, new_price = 21,
                  change_percent = 5\<rparr>]"
    using sel [THEN conjunct1] sel [THEN conjunct2, THEN conjunct1, unfolded pco]
    by (intro exI [of _ r] conjI)
  have emp: "[] = [] \<or> [row ''c'' 30 ''s''] = []" by simp
  note e = diff_order_independent [OF h1 h2 refl refl, where current_data = "[]"
      and historical_data = "[row ''c'' 30 ''s'']" and ops = binary64 and threshold = 5
      and now = "''now''", THEN conjunct1, THEN mp, OF emp]
  show ?thesis
    using h1 h2 h3 h4 h5 h6 a b e [THEN conjunct1] e [THEN conjunct2] by (intro conjI)
qed


section \<open>Proofs: ratings and review counts\<close>

















lemmas rating_eval = extract_rating_def rating_patterns_def review_patterns_def search_group_def
  decimal_group_def literal_def py_isspace_def int_of_digits_def float_of_decimal_def
  replace_char_def nat_of_digits_def digit_val_def is_digit_def
  lower_def lower_char_def char_of_def bit_Suc_0_iff

lemma extract_rating_examples:
  "extract_rating ''4,5 Stars (123 Reviews)'' = \<lparr>rating = Some (9 / 2), review_count = Some 123\<rparr>"
  "extract_rating ''4.8/5'' = \<lparr>rating = Some (24 / 5), review_count = None\<rparr>"
  "extract_rating ''12 avis'' = \<lparr>rating = None, review_count = Some 12\<rparr>"
  "extract_rating ''Nouveau'' = \<lparr>rating = None, review_count = None\<rparr>"
  by (simp_all add: rating_eval)




end
